theory Spec2Isabelle
  imports Main
begin

section \<open>The token registry and layer cache of createUtils\<close>

text \<open>
  This theory embeds \<^verbatim>\<open>packages/plugin-utils/src/createUtils.ts\<close>. The closure
  variables of \<^verbatim>\<open>createUtils\<close> become the fields of one record that every
  operation takes and returns. Calls to \<^verbatim>\<open>debug.*\<close> and to the optional hooks
  \<^verbatim>\<open>onBeforeGenerate\<close>, \<^verbatim>\<open>onGenerated\<close> and \<^verbatim>\<open>onInitialized\<close> only observe
  the state and are left out.
\<close>

subsection \<open>JavaScript containers\<close>

text \<open>
  A JavaScript \<^verbatim>\<open>Set\<close> keeps its elements in insertion order and without
  duplicates: it is a list, \<^verbatim>\<open>add\<close> appends an absent element, \<^verbatim>\<open>delete\<close>
  removes the element, \<^verbatim>\<open>has\<close> is membership and \<^verbatim>\<open>clear\<close> gives the empty list.
\<close>

definition set_add :: "'a \<Rightarrow> 'a list \<Rightarrow> 'a list" where
  "set_add x s = (if x \<in> set s then s else s @ [x])"

definition set_delete :: "'a \<Rightarrow> 'a list \<Rightarrow> 'a list" where
  "set_delete x s = filter (\<lambda>y. y \<noteq> x) s"

text \<open>
  Modelled from the spec: the helpers \<^verbatim>\<open>include\<close> and \<^verbatim>\<open>exclude\<close> are imported from
  \<^verbatim>\<open>./utils\<close>, which is not among the sources. The spec describes their uses as adding
  every given token to a set and as removing every given token from it.
\<close>

fun include_set :: "'a list \<Rightarrow> 'a list \<Rightarrow> 'a list" where
  "include_set s [] = s"
| "include_set s (v # vs) = include_set (set_add v s) vs"

fun exclude_set :: "'a list \<Rightarrow> 'a list \<Rightarrow> 'a list" where
  "exclude_set s [] = s"
| "exclude_set s (v # vs) = exclude_set (set_delete v s) vs"

text \<open>
  A JavaScript \<^verbatim>\<open>Map\<close> keeps its keys in the order of their first insertion:
  \<^verbatim>\<open>set\<close> on a present key replaces the value in place, on an absent key it appends.
\<close>

fun map_get :: "('k \<times> 'v) list \<Rightarrow> 'k \<Rightarrow> 'v option" where
  "map_get [] k = None"
| "map_get ((k', v) # m) k = (if k' = k then Some v else map_get m k)"

fun map_set :: "('k \<times> 'v) list \<Rightarrow> 'k \<Rightarrow> 'v \<Rightarrow> ('k \<times> 'v) list" where
  "map_set [] k v = [(k, v)]"
| "map_set ((k', v') # m) k v = (if k' = k then (k, v) # m else (k', v') # map_set m k v)"

definition map_values :: "('k \<times> 'v) list \<Rightarrow> 'v list" where
  "map_values m = map snd m"

text \<open>\<^verbatim>\<open>Array.prototype.join\<close> with a separator.\<close>

fun join :: "string \<Rightarrow> string list \<Rightarrow> string" where
  "join sep [] = []"
| "join sep [x] = x"
| "join sep (x # y # ys) = x @ sep @ join sep (y # ys)"

subsection \<open>Data model\<close>

datatype LayerName = Base | Utilities | Components

fun layer_str :: "LayerName \<Rightarrow> string" where
  "layer_str Base = ''base''"
| "layer_str Utilities = ''utilities''"
| "layer_str Components = ''components''"

record LayerMeta =
  cssCache :: "string option"
  timestamp :: "nat option"

text \<open>
  A \<^verbatim>\<open>Style\<close> of windicss is opaque here: the code reads \<^verbatim>\<open>meta.type\<close> only,
  whose type is the layer name. The rest of the node is its payload.
\<close>

record Style =
  meta_type :: LayerName
  payload :: string

text \<open>The object \<^verbatim>\<open>layers: Record<LayerName, LayerMeta>\<close>.\<close>

record Layers =
  base :: LayerMeta
  utilities :: LayerMeta
  components :: LayerMeta

fun get_layer :: "Layers \<Rightarrow> LayerName \<Rightarrow> LayerMeta" where
  "get_layer ls Base = base ls"
| "get_layer ls Utilities = utilities ls"
| "get_layer ls Components = components ls"

fun set_layer :: "Layers \<Rightarrow> LayerName \<Rightarrow> LayerMeta \<Rightarrow> Layers" where
  "set_layer ls Base m = ls\<lparr>base := m\<rparr>"
| "set_layer ls Utilities m = ls\<lparr>utilities := m\<rparr>"
| "set_layer ls Components m = ls\<lparr>components := m\<rparr>"

definition empty_meta :: LayerMeta where
  "empty_meta = \<lparr>cssCache = None, timestamp = None\<rparr>"

text \<open>
  The fields of \<^verbatim>\<open>ResolvedOptions\<close> that the modelled functions read. Its declaration
  (\<^verbatim>\<open>./options\<close>) is not among the sources, so the resolved options are a parameter of
  every operation. The fields of \<^verbatim>\<open>options.preflightOptions\<close> carry the prefix
  \<open>pf_\<close>; \<open>config_prefixer\<close> is \<^verbatim>\<open>options.config.prefixer\<close>, which may be absent.
\<close>

record PreflightOptions =
  pf_includeAll :: bool
  pf_includeBase :: bool
  pf_includeGlobal :: bool
  pf_includePlugin :: bool
  pf_safelist :: "string list"
  pf_blocklist :: "string list"
  pf_alias :: "(string \<times> string) list"

record ResolvedOptions =
  safelist :: "string list"
  blocklist :: "string list"
  enablePreflight :: bool
  sortUtilities :: bool
  config_prefixer :: "bool option"
  preflightOptions :: PreflightOptions

text \<open>
  What the code imports from files that are not among the sources and from windicss:
  the constants \<^verbatim>\<open>preflightTags\<close> and \<^verbatim>\<open>htmlTags\<close> of \<^verbatim>\<open>./constants\<close>, the helper
  \<^verbatim>\<open>kebabCase\<close> of \<^verbatim>\<open>./utils\<close>, the methods \<^verbatim>\<open>sort\<close> and \<^verbatim>\<open>build\<close> of a windicss
  \<^verbatim>\<open>StyleSheet\<close> (\<open>sheet_build\<close> takes the value of \<^verbatim>\<open>style.prefixer\<close> and the
  children) and the built-in \<^verbatim>\<open>String.prototype.trim\<close>. They are parameters.
\<close>

record Env =
  preflightTags :: "string list"
  htmlTags :: "string list"
  kebabCase :: "string \<Rightarrow> string"
  sheet_sort :: "Style list \<Rightarrow> Style list"
  sheet_build :: "bool \<Rightarrow> Style list \<Rightarrow> string"
  str_trim :: "string \<Rightarrow> string"

text \<open>
  The compiler instance \<^verbatim>\<open>processor\<close>: \<^verbatim>\<open>interpret\<close> returns the tokens that
  compiled and a style sheet, \<^verbatim>\<open>preflight\<close> takes the tag markup (or \<^verbatim>\<open>undefined\<close>)
  and three flags and returns a style sheet. Of a style sheet only \<^verbatim>\<open>children\<close> is read.
\<close>

record InterpretResult =
  success :: "string list"
  styleSheet_children :: "Style list"

record Processor =
  proc_interpret :: "string \<Rightarrow> InterpretResult"
  proc_preflight :: "string option \<Rightarrow> bool \<Rightarrow> bool \<Rightarrow> bool \<Rightarrow> Style list"

text \<open>
  A promise made by \<^verbatim>\<open>_init()\<close> is pending until the run that made it ends: it is
  fulfilled with the compiler instance that the run returns, or rejected when the run
  throws. Promises and instances are identified by the index of the run.
\<close>

datatype Promise = Pending | Fulfilled nat | Rejected

text \<open>
  The closure variables. \<^verbatim>\<open>completions\<close> caches the result of windicss'
  \<^verbatim>\<open>generateCompletions\<close>, of which only the presence matters here; \<^verbatim>\<open>processor\<close>
  holds the identity of the published compiler instance, whose methods the compiler
  bridge takes as a parameter; \<open>promises\<close> is the table of the promises made by
  \<^verbatim>\<open>_init()\<close> so far. The variables of the file scan (\<^verbatim>\<open>files\<close>, \<^verbatim>\<open>scanned\<close>,
  \<^verbatim>\<open>_searching\<close>) are not part of the model.
\<close>

record Utils =
  classesGenerated :: "string list"
  classesPending :: "string list"
  tagsGenerated :: "string list"
  tagsPending :: "string list"
  attrsGenerated :: "string list"
  tagsAvailable :: "string list"
  layers :: Layers
  layerStylesMap :: "(string \<times> Style list) list"
  completions :: "string list option"
  processor :: "nat option"
  promise_init :: "nat option"
  promises :: "Promise list"

text \<open>The state that \<^verbatim>\<open>createUtils\<close> sets up.\<close>

definition initial :: Utils where
  "initial = \<lparr>classesGenerated = [], classesPending = [], tagsGenerated = [],
     tagsPending = [], attrsGenerated = [], tagsAvailable = [],
     layers = \<lparr>base = empty_meta, utilities = empty_meta, components = empty_meta\<rparr>,
     layerStylesMap = [], completions = None,
     processor = None, promise_init = None, promises = []\<rparr>"

subsection \<open>Token registry\<close>

text \<open>
  One round of the \<^verbatim>\<open>forEach\<close> in \<^verbatim>\<open>addClasses\<close>; the flag \<^verbatim>\<open>changed\<close> is
  carried with the state. The empty string is the only falsy token.
\<close>

definition addClass :: "ResolvedOptions \<Rightarrow> bool \<times> Utils \<Rightarrow> string \<Rightarrow> bool \<times> Utils" where
  "addClass opts cs i =
     (if i = [] \<or> i \<in> set (classesGenerated (snd cs)) \<or> i \<in> set (classesPending (snd cs))
         \<or> i \<in> set (blocklist opts)
      then cs
      else (True, (snd cs)\<lparr>classesPending := set_add i (classesPending (snd cs))\<rparr>))"

definition addClasses :: "ResolvedOptions \<Rightarrow> string list \<Rightarrow> Utils \<Rightarrow> bool \<times> Utils" where
  "addClasses opts classes s = foldl (addClass opts) (False, s) classes"

text \<open>
  One round of the \<^verbatim>\<open>forEach\<close> in \<^verbatim>\<open>addTags\<close>. A tag that is not available is
  replaced by its alias; a missing alias is \<^verbatim>\<open>undefined\<close>, which no set contains, so
  that round changes nothing.
\<close>

definition addTag :: "Env \<Rightarrow> ResolvedOptions \<Rightarrow> bool \<times> Utils \<Rightarrow> string \<Rightarrow> bool \<times> Utils" where
  "addTag env opts cs tag0 =
     (let s = snd cs;
          tag = (if tag0 \<in> set (tagsAvailable s) then Some tag0
                 else map_get (pf_alias (preflightOptions opts)) (kebabCase env tag0))
      in case tag of
           None \<Rightarrow> cs
         | Some t \<Rightarrow>
             if t \<in> set (pf_blocklist (preflightOptions opts)) then cs
             else if t \<in> set (tagsAvailable s) \<and> t \<notin> set (tagsPending s)
             then (True, s\<lparr>tagsPending := set_add t (tagsPending s),
                            tagsAvailable := set_delete t (tagsAvailable s)\<rparr>)
             else cs)"

definition addTags :: "Env \<Rightarrow> ResolvedOptions \<Rightarrow> string list \<Rightarrow> Utils \<Rightarrow> bool \<times> Utils" where
  "addTags env opts tags s = foldl (addTag env opts) (False, s) tags"

definition clearCache :: "Env \<Rightarrow> ResolvedOptions \<Rightarrow> bool \<Rightarrow> Utils \<Rightarrow> Utils" where
  "clearCache env opts clearAll s =
     (let s1 = s\<lparr>layers := \<lparr>base = empty_meta, utilities = empty_meta, components = empty_meta\<rparr>,
                  completions := None\<rparr>;
          s2 = (if clearAll
                then s1\<lparr>classesPending := [], tagsPending := [], tagsAvailable := []\<rparr>
                else s1\<lparr>classesPending := include_set (classesPending s1) (classesGenerated s1),
                        tagsPending := include_set (include_set (tagsPending s1) (tagsGenerated s1))
                                         (preflightTags env),
                        tagsAvailable := include_set (tagsAvailable s1) (htmlTags env)\<rparr>);
          s3 = s2\<lparr>classesPending := include_set (classesPending s2) (safelist opts),
                  tagsPending := include_set (tagsPending s2) (pf_safelist (preflightOptions opts))\<rparr>;
          s4 = s3\<lparr>tagsAvailable := exclude_set (exclude_set (tagsAvailable s3) (preflightTags env))
                                     (pf_safelist (preflightOptions opts))\<rparr>
      in s4\<lparr>classesGenerated := [], tagsGenerated := [], attrsGenerated := []\<rparr>)"

subsection \<open>Layer store\<close>

text \<open>
  The set \<^verbatim>\<open>changedLayers\<close> that \<^verbatim>\<open>updateLayers\<close> collects: the layers of the new
  styles and, when \<^verbatim>\<open>replace\<close> holds, those of the styles stored under the key before.
\<close>

definition add_types :: "LayerName list \<Rightarrow> Style list \<Rightarrow> LayerName list" where
  "add_types c styles = foldl (\<lambda>c i. set_add (meta_type i) c) c styles"

definition changedLayers :: "Style list \<Rightarrow> string \<Rightarrow> bool \<Rightarrow> Utils \<Rightarrow> LayerName list" where
  "changedLayers styles filepath replace s =
     (let c = add_types [] styles
      in if replace
         then (case map_get (layerStylesMap s) filepath of
                 None \<Rightarrow> c
               | Some prev \<Rightarrow> add_types c prev)
         else c)"

text \<open>
  \<^verbatim>\<open>updateLayers\<close>; the first argument is the value of \<^verbatim>\<open>Date.now()\<close>. Every layer
  name has an entry in \<^verbatim>\<open>layers\<close>, so the test \<^verbatim>\<open>if (layer)\<close> always succeeds.
\<close>

definition updateLayers :: "nat \<Rightarrow> Style list \<Rightarrow> string \<Rightarrow> bool \<Rightarrow> Utils \<Rightarrow> Utils" where
  "updateLayers now styles filepath replace s =
     (let changed = changedLayers styles filepath replace s;
          m = (if replace
               then map_set (layerStylesMap s) filepath styles
               else (let prevStyles = (case map_get (layerStylesMap s) filepath of
                                         None \<Rightarrow> []
                                       | Some prev \<Rightarrow> prev)
                     in map_set (layerStylesMap s) filepath (prevStyles @ styles)))
      in s\<lparr>layerStylesMap := m,
            layers := foldl (\<lambda>ls name. set_layer ls name
                               ((get_layer ls name)\<lparr>timestamp := Some now, cssCache := None\<rparr>))
                        (layers s) changed\<rparr>)"

text \<open>The styles of one layer, over all keys in the order of the map.\<close>

definition layer_styles :: "LayerName \<Rightarrow> (string \<times> Style list) list \<Rightarrow> Style list" where
  "layer_styles name m = filter (\<lambda>i. meta_type i = name) (concat (map_values m))"

definition banner :: "LayerName \<Rightarrow> string" where
  "banner name = ''/* windicss layer '' @ layer_str name @ '' */'' @ [CHR 0x0A]"

text \<open>The text that \<^verbatim>\<open>buildLayerCss\<close> computes when the layer has no cached text.\<close>

definition layer_css :: "Env \<Rightarrow> ResolvedOptions \<Rightarrow> LayerName \<Rightarrow> (string \<times> Style list) list \<Rightarrow> string" where
  "layer_css env opts name m =
     (let children = layer_styles name m;
          prefixer = (case config_prefixer opts of None \<Rightarrow> True | Some b \<Rightarrow> b);
          children' = (if sortUtilities opts then sheet_sort env children else children)
      in banner name @ sheet_build env prefixer children')"

definition buildLayerCss :: "Env \<Rightarrow> ResolvedOptions \<Rightarrow> LayerName \<Rightarrow> Utils \<Rightarrow> string \<times> Utils" where
  "buildLayerCss env opts name s =
     (let layer = get_layer (layers s) name
      in case cssCache layer of
           Some css \<Rightarrow> (css, s)
         | None \<Rightarrow>
             (let css = layer_css env opts name (layerStylesMap s)
              in (css, s\<lparr>layers := set_layer (layers s) name (layer\<lparr>cssCache := Some css\<rparr>)\<rparr>)))"

subsection \<open>Compiler bridge\<close>

text \<open>
  \<^verbatim>\<open>buildPendingStyles\<close> is two blocks in sequence, one for the pending classes and one
  for the preflight; each calls \<^verbatim>\<open>updateLayers\<close> at most once, with its own reading of
  the clock.
\<close>

definition buildPendingClasses :: "Processor \<Rightarrow> nat \<Rightarrow> Utils \<Rightarrow> Utils" where
  "buildPendingClasses proc now s =
     (if classesPending s \<noteq> []
      then (let result = proc_interpret proc (join '' '' (classesPending s))
            in if success result \<noteq> []
               then (let s1 = updateLayers now (styleSheet_children result) ''__classes'' False s
                     in s1\<lparr>classesGenerated := include_set (classesGenerated s1) (success result),
                           classesPending := []\<rparr>)
               else s)
      else s)"

definition buildPendingPreflights :: "ResolvedOptions \<Rightarrow> Processor \<Rightarrow> nat \<Rightarrow> Utils \<Rightarrow> Utils" where
  "buildPendingPreflights opts proc now s =
     (let po = preflightOptions opts
      in if enablePreflight opts
         then (if pf_includeAll po \<or> tagsPending s \<noteq> []
               then (let preflightStyle =
                           proc_preflight proc
                             (if pf_includeAll po then None
                              else Some (join '' '' (map (\<lambda>i. ''<'' @ i @ ''/>'') (tagsPending s))))
                             (pf_includeBase po) (pf_includeGlobal po) (pf_includePlugin po);
                         s1 = updateLayers now preflightStyle ''__preflights'' False s
                     in s1\<lparr>tagsGenerated := include_set (tagsGenerated s1) (tagsPending s1),
                           tagsPending := []\<rparr>)
               else s)
         else s)"

definition buildPendingStyles :: "ResolvedOptions \<Rightarrow> Processor \<Rightarrow> nat \<Rightarrow> nat \<Rightarrow> Utils \<Rightarrow> Utils" where
  "buildPendingStyles opts proc now1 now2 s =
     buildPendingPreflights opts proc now2 (buildPendingClasses proc now1 s)"

subsection \<open>Orchestrator\<close>

text \<open>
  \<^verbatim>\<open>generateCSS\<close> after its two awaits (\<^verbatim>\<open>ensureInit\<close> and the optional scan): the
  pending styles are built, then one layer or all three are read.
\<close>

definition generateCSS ::
  "Env \<Rightarrow> ResolvedOptions \<Rightarrow> Processor \<Rightarrow> nat \<Rightarrow> nat \<Rightarrow> LayerName option \<Rightarrow> Utils \<Rightarrow> string \<times> Utils" where
  "generateCSS env opts proc now1 now2 layer s =
     (let s1 = buildPendingStyles opts proc now1 now2 s
      in case layer of
           Some l \<Rightarrow> buildLayerCss env opts l s1
         | None \<Rightarrow>
             (let r1 = buildLayerCss env opts Base s1;
                  r2 = buildLayerCss env opts Components (snd r1);
                  r3 = buildLayerCss env opts Utilities (snd r2)
              in (str_trim env (join [CHR 0x0A] [fst r1, fst r2, fst r3]), snd r3)))"

subsection \<open>Initialization coordinator\<close>

text \<open>
  A call of \<^verbatim>\<open>_init()\<close> runs to its first \<^verbatim>\<open>await\<close> and hands back a new pending
  promise (\<open>init_begin\<close>). The run ends in one of two ways. When the options are
  resolved and the compiler instance is made (\<open>init_finish\<close>), it publishes the
  instance in \<^verbatim>\<open>processor\<close>, calls \<^verbatim>\<open>clearCache(false)\<close> with the new options and
  fulfils its promise. When \<^verbatim>\<open>resolveOptions\<close> or \<^verbatim>\<open>new Processor\<close> throws
  (\<open>init_fail\<close>), nothing is published: \<^verbatim>\<open>processor\<close> and \<^verbatim>\<open>_promise_init\<close> stay
  as they are and the promise is rejected.
\<close>

definition init_begin :: "Utils \<Rightarrow> nat \<times> Utils" where
  "init_begin s = (length (promises s), s\<lparr>promises := promises s @ [Pending]\<rparr>)"



text \<open>
  What a call of \<^verbatim>\<open>init\<close> or \<^verbatim>\<open>ensureInit\<close> hands to its caller: the instance that
  is ready, or a promise that settles as the promise of the given run of \<^verbatim>\<open>_init\<close>
  does.
\<close>

datatype InitResult = Ready nat | InFlight nat

definition init :: "Utils \<Rightarrow> InitResult \<times> Utils" where
  "init s = (let r = init_begin s in (InFlight (fst r), (snd r)\<lparr>promise_init := Some (fst r)\<rparr>))"



subsection \<open>Sequences of calls\<close>

text \<open>
  The synchronous operations of the object that \<^verbatim>\<open>createUtils\<close> returns, as data, and
  a run of a sequence of them under fixed resolved options. The results of the calls are
  dropped; the state is kept.
\<close>

datatype Call =
    AddClasses "string list"
  | AddTags "string list"
  | ClearCache bool
  | UpdateLayers nat "Style list" string bool
  | BuildLayerCss LayerName
  | BuildPendingStyles Processor nat nat
  | GenerateCSS Processor nat nat "LayerName option"

fun call :: "Env \<Rightarrow> ResolvedOptions \<Rightarrow> Utils \<Rightarrow> Call \<Rightarrow> Utils" where
  "call env opts s (AddClasses classes) = snd (addClasses opts classes s)"
| "call env opts s (AddTags tags) = snd (addTags env opts tags s)"
| "call env opts s (ClearCache clearAll) = clearCache env opts clearAll s"
| "call env opts s (UpdateLayers now styles filepath replace) =
     updateLayers now styles filepath replace s"
| "call env opts s (BuildLayerCss name) = snd (buildLayerCss env opts name s)"
| "call env opts s (BuildPendingStyles proc now1 now2) = buildPendingStyles opts proc now1 now2 s"
| "call env opts s (GenerateCSS proc now1 now2 layer) =
     snd (generateCSS env opts proc now1 now2 layer s)"

definition run_calls :: "Env \<Rightarrow> ResolvedOptions \<Rightarrow> Call list \<Rightarrow> Utils \<Rightarrow> Utils" where
  "run_calls env opts cs s = foldl (call env opts) s cs"

text \<open>The calls that a registry-only sequence is made of.\<close>

fun registry_call :: "Call \<Rightarrow> bool" where
  "registry_call (AddClasses _) = True"
| "registry_call (AddTags _) = True"
| "registry_call (ClearCache _) = True"
| "registry_call _ = False"

text \<open>
  How the tag sets were last reset by the calls of a sequence: not at all, by
  \<^verbatim>\<open>clearCache(true)\<close> or by \<^verbatim>\<open>clearCache(false)\<close>.
\<close>

datatype TagPhase = Fresh | Emptied | Filled

fun next_phase :: "TagPhase \<Rightarrow> Call \<Rightarrow> TagPhase" where
  "next_phase ph (ClearCache clearAll) = (if clearAll then Emptied else Filled)"
| "next_phase ph _ = ph"

definition tag_phase :: "Call list \<Rightarrow> TagPhase" where
  "tag_phase cs = foldl next_phase Fresh cs"

text \<open>The calls \<^verbatim>\<open>clearCache(false)\<close> of a sequence.\<close>

fun partial_clear :: "Call \<Rightarrow> bool" where
  "partial_clear (ClearCache clearAll) = (\<not> clearAll)"
| "partial_clear _ = False"

text \<open>The three tag sets have no tag in common, two by two.\<close>

definition tags_disjoint :: "Utils \<Rightarrow> bool" where
  "tags_disjoint s \<longleftrightarrow>
     set (tagsAvailable s) \<inter> set (tagsPending s) = {} \<and>
     set (tagsAvailable s) \<inter> set (tagsGenerated s) = {} \<and>
     set (tagsPending s) \<inter> set (tagsGenerated s) = {}"

text \<open>A token that \<^verbatim>\<open>addClasses\<close> does not skip.\<close>

definition insertable :: "ResolvedOptions \<Rightarrow> Utils \<Rightarrow> string \<Rightarrow> bool" where
  "insertable opts s t \<longleftrightarrow>
     t \<noteq> [] \<and> t \<notin> set (classesGenerated s) \<and> t \<notin> set (classesPending s) \<and>
     t \<notin> set (blocklist opts)"

text \<open>
  Whether a call of \<^verbatim>\<open>updateLayers\<close> or \<^verbatim>\<open>buildLayerCss\<close> leaves the cache entry of a
  layer alone, for the calls of a sequence in turn.
\<close>

fun layer_call :: "Call \<Rightarrow> bool" where
  "layer_call (UpdateLayers _ _ _ _) = True"
| "layer_call (BuildLayerCss _) = True"
| "layer_call _ = False"

fun touches :: "LayerName \<Rightarrow> Call \<Rightarrow> Utils \<Rightarrow> bool" where
  "touches name (UpdateLayers now styles filepath replace) s =
     (name \<in> set (changedLayers styles filepath replace s))"
| "touches name _ s = False"

fun untouched :: "Env \<Rightarrow> ResolvedOptions \<Rightarrow> LayerName \<Rightarrow> Call list \<Rightarrow> Utils \<Rightarrow> bool" where
  "untouched env opts name [] s = True"
| "untouched env opts name (c # cs) s =
     (layer_call c \<and> \<not> touches name c s \<and> untouched env opts name cs (call env opts s c))"

text \<open>Every cached text is the text of the styles that are stored now.\<close>

definition coherent :: "Env \<Rightarrow> ResolvedOptions \<Rightarrow> Utils \<Rightarrow> bool" where
  "coherent env opts s =
     list_all (\<lambda>name. case cssCache (get_layer (layers s) name) of
                         None \<Rightarrow> True
                       | Some css \<Rightarrow> css = layer_css env opts name (layerStylesMap s))
       [Base, Utilities, Components]"

subsection \<open>Example values\<close>

text \<open>
  A small instance of the parameters, used to run the definitions: a few of the HTML
  tags, the three preflight tags, an alias, a style sheet that prints the payloads
  of its children, and a compiler that knows the class \<open>m-1\<close> when it comes with
  the unknown token \<open>typo\<close>.
\<close>

definition ex_env :: Env where
  "ex_env = \<lparr>preflightTags = [''html'', ''body'', ''div''],
     htmlTags = [''html'', ''body'', ''div'', ''a'', ''p'', ''img''],
     kebabCase = (\<lambda>t. t),
     sheet_sort = (\<lambda>xs. xs),
     sheet_build = (\<lambda>p xs. concat (map payload xs)),
     str_trim = (\<lambda>t. t)\<rparr>"

definition ex_opts :: ResolvedOptions where
  "ex_opts = \<lparr>safelist = [''prose''], blocklist = [''container''],
     enablePreflight = True, sortUtilities = False, config_prefixer = None,
     preflightOptions = \<lparr>pf_includeAll = False, pf_includeBase = True,
       pf_includeGlobal = True, pf_includePlugin = True,
       pf_safelist = [''p''], pf_blocklist = [''img''],
       pf_alias = [(''router-link'', ''a'')]\<rparr>\<rparr>"

definition ex_proc :: Processor where
  "ex_proc = \<lparr>proc_interpret = (\<lambda>t. if t = ''m-1 typo''
                 then \<lparr>success = [''m-1''],
                       styleSheet_children = [\<lparr>meta_type = Utilities, payload = ''.m-1{}''\<rparr>]\<rparr>
                 else \<lparr>success = [], styleSheet_children = []\<rparr>),
     proc_preflight = (\<lambda>html b g p. [\<lparr>meta_type = Base, payload = ''a{}''\<rparr>])\<rparr>"

text \<open>
  A sequence of registry calls: the reset that initialization makes, a tag found in a
  source file, and the reset of a reconfiguration.
\<close>

definition ex_calls :: "Call list" where
  "ex_calls = [ClearCache False, AddTags [''a''], ClearCache False]"

text \<open>
  A sequence with one reset: the tags of a source file are an aliased component, a
  blocklisted tag, an unknown tag and a plain one.
\<close>

definition ex_calls1 :: "Call list" where
  "ex_calls1 = [ClearCache False, AddTags [''router-link'', ''img'', ''zzz'', ''a'']]"




text \<open>
  The styles stored under a key, none when the key is absent: the value of
  \<^verbatim>\<open>layerStylesMap.get(filepath) || []\<close>.
\<close>

definition contribution :: "Utils \<Rightarrow> string \<Rightarrow> Style list" where
  "contribution s filepath =
     (case map_get (layerStylesMap s) filepath of None \<Rightarrow> [] | Some prev \<Rightarrow> prev)"

text \<open>
  A state with generated classes and tags and with cached layers, as a run of
  \<^verbatim>\<open>generateCSS\<close> leaves it.
\<close>

definition ex_state :: Utils where
  "ex_state = \<lparr>classesGenerated = [''p-4''], classesPending = [''m-1''],
     tagsGenerated = [''a''], tagsPending = [''html''], attrsGenerated = [],
     tagsAvailable = [''img''],
     layers = \<lparr>base = \<lparr>cssCache = Some ''/* base */'', timestamp = Some 1\<rparr>,
                utilities = \<lparr>cssCache = Some ''/* utilities */'', timestamp = Some 2\<rparr>,
                components = \<lparr>cssCache = None, timestamp = None\<rparr>\<rparr>,
     layerStylesMap =
       [(''__classes'', [\<lparr>meta_type = Utilities, payload = ''.p-4{}''\<rparr>]),
        (''/src/main.css'', [\<lparr>meta_type = Base, payload = ''h1{}''\<rparr>,
                             \<lparr>meta_type = Components, payload = ''.btn{}''\<rparr>])],
     completions = Some [''p-4''],
     processor = Some 0, promise_init = Some 0, promises = [Fulfilled 0]\<rparr>"

text \<open>
  The styles of an edited style sheet, and later calls that concern the base layer
  only.
\<close>

definition ex_styles :: "Style list" where
  "ex_styles = [\<lparr>meta_type = Utilities, payload = ''.x{}''\<rparr>]"

definition ex_later :: "Call list" where
  "ex_later = [UpdateLayers 9 [\<lparr>meta_type = Base, payload = ''h2{}''\<rparr>] ''/src/b.css'' True,
               BuildLayerCss Base]"

section \<open>Properties\<close>

subsection \<open>Containers and the class registry\<close>

lemma set_set_add: "set (set_add x s) = insert x (set s)"
  by (auto simp: set_add_def)

lemma set_set_delete: "set (set_delete x s) = set s - {x}"
  by (auto simp: set_delete_def)

lemma set_include_set: "set (include_set s vs) = set s \<union> set vs"
  by (induction vs arbitrary: s) (auto simp: set_set_add)

lemma set_exclude_set: "set (exclude_set s vs) = set s - set vs"
  by (induction vs arbitrary: s) (auto simp: set_set_delete)

lemma addClass_frame:
  "snd (addClass opts cs i) = (snd cs)\<lparr>classesPending := classesPending (snd (addClass opts cs i))\<rparr>"
  by (simp add: addClass_def)

lemma addClass_pending:
  "set (classesPending (snd (addClass opts cs i))) =
     set (classesPending (snd cs)) \<union> {t. t = i \<and> insertable opts (snd cs) t}"
  by (auto simp: addClass_def insertable_def set_set_add)

lemma addClass_changed:
  "fst (addClass opts cs i) \<longleftrightarrow> fst cs \<or> insertable opts (snd cs) i"
  by (cases cs) (auto simp: addClass_def insertable_def)

lemma addClasses_fold_frame:
  "snd (foldl (addClass opts) cs xs) =
     (snd cs)\<lparr>classesPending := classesPending (snd (foldl (addClass opts) cs xs))\<rparr>"
proof (induction xs arbitrary: cs)
  case Nil
  show ?case by simp
next
  case (Cons x xs)
  have "snd (foldl (addClass opts) (addClass opts cs x) xs) =
        (snd (addClass opts cs x))\<lparr>classesPending :=
           classesPending (snd (foldl (addClass opts) (addClass opts cs x) xs))\<rparr>"
    by (rule Cons.IH)
  also have "\<dots> = (snd cs)\<lparr>classesPending :=
           classesPending (snd (foldl (addClass opts) (addClass opts cs x) xs))\<rparr>"
    by (subst addClass_frame) simp
  finally show ?case by simp
qed

lemma addClasses_fold_pending:
  "set (classesPending (snd (foldl (addClass opts) cs xs))) =
     set (classesPending (snd cs)) \<union> {t \<in> set xs. insertable opts (snd cs) t}"
proof (induction xs arbitrary: cs)
  case Nil
  show ?case by simp
next
  case (Cons x xs)
  have g: "classesGenerated (snd (addClass opts cs x)) = classesGenerated (snd cs)"
    by (simp add: addClass_def)
  show ?case
    by (auto simp: Cons.IH addClass_pending insertable_def g)
qed

lemma addClasses_fold_changed:
  "fst (foldl (addClass opts) cs xs) \<longleftrightarrow> fst cs \<or> (\<exists>t \<in> set xs. insertable opts (snd cs) t)"
proof (induction xs arbitrary: cs)
  case Nil
  show ?case by simp
next
  case (Cons x xs)
  have g: "classesGenerated (snd (addClass opts cs x)) = classesGenerated (snd cs)"
    by (simp add: addClass_def)
  show ?case
    by (auto simp: Cons.IH addClass_changed addClass_pending insertable_def g)
qed


lemma addClasses_twice:
  assumes "insertable opts s t"
  shows "fst (addClasses opts [t] s) \<and>
         addClasses opts [t] (snd (addClasses opts [t] s)) = (False, snd (addClasses opts [t] s))"
  using assms by (simp add: addClasses_def addClass_def insertable_def set_set_add)

text \<open>
  C3. For every token list, \<^verbatim>\<open>addClasses\<close> adds to the pending classes exactly the
  tokens of the list that are non-empty, not generated, not pending and not blocklisted,
  and changes nothing else; it returns true iff there is such a token in the list. For
  such a token \<open>t\<close>, the call \<^verbatim>\<open>addClasses([t])\<close> returns true, and the same call
  made again on the resulting state returns false and leaves that state as it is.
\<close>

theorem C3_addClasses:
  "set (classesPending (snd (addClasses opts classes s))) =
     set (classesPending s) \<union> {t \<in> set classes. insertable opts s t} \<and>
   snd (addClasses opts classes s) =
     s\<lparr>classesPending := classesPending (snd (addClasses opts classes s))\<rparr> \<and>
   (fst (addClasses opts classes s) \<longleftrightarrow> (\<exists>t \<in> set classes. insertable opts s t)) \<and>
   (insertable opts s t \<longrightarrow>
      fst (addClasses opts [t] s) \<and>
      addClasses opts [t] (snd (addClasses opts [t] s)) = (False, snd (addClasses opts [t] s)))"
proof -
  have "set (classesPending (snd (addClasses opts classes s))) =
     set (classesPending s) \<union> {t \<in> set classes. insertable opts s t}"
    unfolding addClasses_def by (simp add: addClasses_fold_pending)
  moreover have "snd (addClasses opts classes s) =
     s\<lparr>classesPending := classesPending (snd (addClasses opts classes s))\<rparr>"
    unfolding addClasses_def using addClasses_fold_frame [of opts "(False, s)" classes] by simp
  moreover have "fst (addClasses opts classes s) \<longleftrightarrow> (\<exists>t \<in> set classes. insertable opts s t)"
    unfolding addClasses_def by (simp add: addClasses_fold_changed)
  moreover have "insertable opts s t \<longrightarrow>
     fst (addClasses opts [t] s) \<and>
     addClasses opts [t] (snd (addClasses opts [t] s)) = (False, snd (addClasses opts [t] s))"
    using addClasses_twice by blast
  ultimately show ?thesis by blast
qed

theorem C3_addClasses_witness:
  "insertable ex_opts initial ''p-4'' \<and>
   fst (addClasses ex_opts [''p-4''] initial) \<and>
   addClasses ex_opts [''p-4''] (snd (addClasses ex_opts [''p-4''] initial)) =
     (False, snd (addClasses ex_opts [''p-4''] initial)) \<and>
   classesPending (snd (addClasses ex_opts [''p-4'', '''', ''container'', ''p-4''] initial)) =
     [''p-4'']"
proof -
  have h: "insertable ex_opts initial ''p-4''"
    by (simp add: insertable_def initial_def ex_opts_def)
  have c: "classesPending (snd (addClasses ex_opts [''p-4'', '''', ''container'', ''p-4''] initial)) =
     [''p-4'']"
    by (simp add: addClasses_def addClass_def initial_def ex_opts_def set_add_def)
  from C3_addClasses [of ex_opts "[''p-4'']" initial "''p-4''"] h c show ?thesis by blast
qed

subsection \<open>What each operation leaves alone\<close>

lemma addClasses_frame:
  "snd (addClasses opts classes s) =
     s\<lparr>classesPending := classesPending (snd (addClasses opts classes s))\<rparr>"
  unfolding addClasses_def using addClasses_fold_frame [of opts "(False, s)" classes] by simp

lemma addClasses_fields:
  "classesGenerated (snd (addClasses opts classes s)) = classesGenerated s"
  "tagsGenerated (snd (addClasses opts classes s)) = tagsGenerated s"
  "tagsPending (snd (addClasses opts classes s)) = tagsPending s"
  "tagsAvailable (snd (addClasses opts classes s)) = tagsAvailable s"
  "layers (snd (addClasses opts classes s)) = layers s"
  "layerStylesMap (snd (addClasses opts classes s)) = layerStylesMap s"
  by (subst addClasses_frame, simp)+

lemma addTag_frame:
  "snd (addTag env opts cs t) =
     (snd cs)\<lparr>tagsPending := tagsPending (snd (addTag env opts cs t)),
              tagsAvailable := tagsAvailable (snd (addTag env opts cs t))\<rparr>"
  by (simp add: addTag_def Let_def split: option.splits)

lemma addTags_fold_frame:
  "snd (foldl (addTag env opts) cs xs) =
     (snd cs)\<lparr>tagsPending := tagsPending (snd (foldl (addTag env opts) cs xs)),
              tagsAvailable := tagsAvailable (snd (foldl (addTag env opts) cs xs))\<rparr>"
proof (induction xs arbitrary: cs)
  case Nil
  show ?case by simp
next
  case (Cons x xs)
  let ?r = "foldl (addTag env opts) (addTag env opts cs x) xs"
  have "snd ?r = (snd (addTag env opts cs x))\<lparr>tagsPending := tagsPending (snd ?r),
                   tagsAvailable := tagsAvailable (snd ?r)\<rparr>"
    by (rule Cons.IH)
  also have "\<dots> = (snd cs)\<lparr>tagsPending := tagsPending (snd ?r),
                   tagsAvailable := tagsAvailable (snd ?r)\<rparr>"
    by (subst addTag_frame) simp
  finally show ?case by simp
qed

lemma addTags_frame:
  "snd (addTags env opts tags s) =
     s\<lparr>tagsPending := tagsPending (snd (addTags env opts tags s)),
       tagsAvailable := tagsAvailable (snd (addTags env opts tags s))\<rparr>"
  unfolding addTags_def using addTags_fold_frame [of env opts "(False, s)" tags] by simp

lemma addTags_fields:
  "classesGenerated (snd (addTags env opts tags s)) = classesGenerated s"
  "classesPending (snd (addTags env opts tags s)) = classesPending s"
  "tagsGenerated (snd (addTags env opts tags s)) = tagsGenerated s"
  "layers (snd (addTags env opts tags s)) = layers s"
  "layerStylesMap (snd (addTags env opts tags s)) = layerStylesMap s"
  by (subst addTags_frame, simp)+

lemma clearCache_fields:
  "classesGenerated (clearCache env opts clearAll s) = []"
  "tagsGenerated (clearCache env opts clearAll s) = []"
  "attrsGenerated (clearCache env opts clearAll s) = []"
  "completions (clearCache env opts clearAll s) = None"
  "layers (clearCache env opts clearAll s) =
     \<lparr>base = empty_meta, utilities = empty_meta, components = empty_meta\<rparr>"
  "layerStylesMap (clearCache env opts clearAll s) = layerStylesMap s"
  "processor (clearCache env opts clearAll s) = processor s"
  "promise_init (clearCache env opts clearAll s) = promise_init s"
  "promises (clearCache env opts clearAll s) = promises s"
  by (simp_all add: clearCache_def Let_def)

lemma clearCache_classesPending:
  "set (classesPending (clearCache env opts clearAll s)) =
     (if clearAll then {} else set (classesPending s) \<union> set (classesGenerated s)) \<union>
     set (safelist opts)"
  by (simp add: clearCache_def Let_def set_include_set)

lemma clearCache_tagsPending:
  "set (tagsPending (clearCache env opts clearAll s)) =
     (if clearAll then {}
      else set (tagsPending s) \<union> set (tagsGenerated s) \<union> set (preflightTags env)) \<union>
     set (pf_safelist (preflightOptions opts))"
  by (simp add: clearCache_def Let_def set_include_set)

lemma clearCache_tagsAvailable:
  "set (tagsAvailable (clearCache env opts clearAll s)) =
     (if clearAll then {} else set (tagsAvailable s) \<union> set (htmlTags env)) -
     set (preflightTags env) - set (pf_safelist (preflightOptions opts))"
  by (simp add: clearCache_def Let_def set_include_set set_exclude_set)

lemma updateLayers_fields:
  "classesGenerated (updateLayers now styles filepath replace s) = classesGenerated s"
  "classesPending (updateLayers now styles filepath replace s) = classesPending s"
  "tagsGenerated (updateLayers now styles filepath replace s) = tagsGenerated s"
  "tagsPending (updateLayers now styles filepath replace s) = tagsPending s"
  "tagsAvailable (updateLayers now styles filepath replace s) = tagsAvailable s"
  by (simp_all add: updateLayers_def Let_def)

lemma buildLayerCss_fields:
  "classesGenerated (snd (buildLayerCss env opts name s)) = classesGenerated s"
  "classesPending (snd (buildLayerCss env opts name s)) = classesPending s"
  "tagsGenerated (snd (buildLayerCss env opts name s)) = tagsGenerated s"
  "tagsPending (snd (buildLayerCss env opts name s)) = tagsPending s"
  "tagsAvailable (snd (buildLayerCss env opts name s)) = tagsAvailable s"
  "layerStylesMap (snd (buildLayerCss env opts name s)) = layerStylesMap s"
  by (simp_all add: buildLayerCss_def Let_def split: option.splits)

lemma buildPendingPreflights_fields:
  "classesGenerated (buildPendingPreflights opts proc now s) = classesGenerated s"
  "classesPending (buildPendingPreflights opts proc now s) = classesPending s"
  by (simp_all add: buildPendingPreflights_def Let_def updateLayers_fields)

lemma buildPendingClasses_fields:
  "tagsGenerated (buildPendingClasses proc now s) = tagsGenerated s"
  "tagsPending (buildPendingClasses proc now s) = tagsPending s"
  "tagsAvailable (buildPendingClasses proc now s) = tagsAvailable s"
  by (simp_all add: buildPendingClasses_def Let_def updateLayers_fields)

subsection \<open>Generated and pending classes stay apart\<close>

lemma addClasses_disjoint:
  assumes "set (classesGenerated s) \<inter> set (classesPending s) = {}"
  shows "set (classesGenerated (snd (addClasses opts classes s))) \<inter>
         set (classesPending (snd (addClasses opts classes s))) = {}"
proof -
  have "set (classesPending (snd (addClasses opts classes s))) =
     set (classesPending s) \<union> {t \<in> set classes. insertable opts s t}"
    unfolding addClasses_def by (simp add: addClasses_fold_pending)
  with assms show ?thesis
    by (auto simp: addClasses_fields insertable_def)
qed

lemma buildPendingClasses_disjoint:
  assumes "set (classesGenerated s) \<inter> set (classesPending s) = {}"
  shows "set (classesGenerated (buildPendingClasses proc now s)) \<inter>
         set (classesPending (buildPendingClasses proc now s)) = {}"
  using assms by (simp add: buildPendingClasses_def Let_def)

lemma buildPendingStyles_disjoint:
  assumes "set (classesGenerated s) \<inter> set (classesPending s) = {}"
  shows "set (classesGenerated (buildPendingStyles opts proc now1 now2 s)) \<inter>
         set (classesPending (buildPendingStyles opts proc now1 now2 s)) = {}"
  using buildPendingClasses_disjoint [OF assms]
  by (simp add: buildPendingStyles_def buildPendingPreflights_fields)

lemma generateCSS_classes:
  "classesGenerated (snd (generateCSS env opts proc now1 now2 layer s)) =
     classesGenerated (buildPendingStyles opts proc now1 now2 s)"
  "classesPending (snd (generateCSS env opts proc now1 now2 layer s)) =
     classesPending (buildPendingStyles opts proc now1 now2 s)"
  by (simp_all add: generateCSS_def Let_def buildLayerCss_fields split: option.splits)

lemma call_disjoint:
  assumes "set (classesGenerated s) \<inter> set (classesPending s) = {}"
  shows "set (classesGenerated (call env opts s c)) \<inter> set (classesPending (call env opts s c)) = {}"
proof (cases c)
  case (AddClasses classes)
  then show ?thesis using addClasses_disjoint [OF assms] by simp
next
  case (AddTags tags)
  then show ?thesis using assms by (simp add: addTags_fields)
next
  case (ClearCache clearAll)
  then show ?thesis by (simp add: clearCache_fields)
next
  case (UpdateLayers now styles filepath replace)
  then show ?thesis using assms by (simp add: updateLayers_fields)
next
  case (BuildLayerCss name)
  then show ?thesis using assms by (simp add: buildLayerCss_fields)
next
  case (BuildPendingStyles proc now1 now2)
  then show ?thesis using buildPendingStyles_disjoint [OF assms] by simp
next
  case (GenerateCSS proc now1 now2 layer)
  then show ?thesis using buildPendingStyles_disjoint [OF assms] by (simp add: generateCSS_classes)
qed

lemma run_calls_disjoint:
  assumes "set (classesGenerated s) \<inter> set (classesPending s) = {}"
  shows "set (classesGenerated (run_calls env opts cs s)) \<inter>
         set (classesPending (run_calls env opts cs s)) = {}"
  using assms unfolding run_calls_def
  by (induction cs arbitrary: s) (simp_all add: call_disjoint)

text \<open>
  C2. After every call of every sequence of calls from the initial state, no class is
  both generated and pending. This holds for sequences of \<^verbatim>\<open>addClasses\<close> and
  \<^verbatim>\<open>clearCache\<close> in either mode, and stays true when the other operations
  are called in between: \<open>take n cs\<close> is the sequence up to its \<open>n\<close>-th call.
\<close>

theorem C2_classes_disjoint:
  "set (classesGenerated (run_calls env opts (take n cs) initial)) \<inter>
   set (classesPending (run_calls env opts (take n cs) initial)) = {}"
  by (rule run_calls_disjoint) (simp add: initial_def)

theorem C2_classes_disjoint_witness:
  "classesPending (run_calls ex_env ex_opts
      (take 2 [AddClasses [''p-4'', ''m-1''], ClearCache False, AddClasses [''p-4'']]) initial) =
     [''p-4'', ''m-1'', ''prose''] \<and>
   set (classesGenerated (run_calls ex_env ex_opts
      (take 2 [AddClasses [''p-4'', ''m-1''], ClearCache False, AddClasses [''p-4'']]) initial)) \<inter>
   set (classesPending (run_calls ex_env ex_opts
      (take 2 [AddClasses [''p-4'', ''m-1''], ClearCache False, AddClasses [''p-4'']]) initial)) = {}"
proof -
  have "classesPending (run_calls ex_env ex_opts
      (take 2 [AddClasses [''p-4'', ''m-1''], ClearCache False, AddClasses [''p-4'']]) initial) =
     [''p-4'', ''m-1'', ''prose'']"
    by (simp add: run_calls_def addClasses_def addClass_def clearCache_def Let_def initial_def
        ex_opts_def ex_env_def set_add_def)
  with C2_classes_disjoint [of ex_env ex_opts 2
      "[AddClasses [''p-4'', ''m-1''], ClearCache False, AddClasses [''p-4'']]"]
  show ?thesis by blast
qed

subsection \<open>The tag sets\<close>

text \<open>Two moves of elements from one set to another, one after the other, are a move.\<close>

lemma move_compose:
  fixes A0 A1 A2 P0 P1 P2 :: "'a set"
  assumes "A1 \<subseteq> A0 \<and> P0 \<subseteq> P1 \<and> A1 \<union> P1 = A0 \<union> P0 \<and> P1 - P0 = A0 - A1 \<and>
           (A0 \<inter> P0 = {} \<longrightarrow> A1 \<inter> P1 = {})"
    and "A2 \<subseteq> A1 \<and> P1 \<subseteq> P2 \<and> A2 \<union> P2 = A1 \<union> P1 \<and> P2 - P1 = A1 - A2 \<and>
           (A1 \<inter> P1 = {} \<longrightarrow> A2 \<inter> P2 = {})"
  shows "A2 \<subseteq> A0 \<and> P0 \<subseteq> P2 \<and> A2 \<union> P2 = A0 \<union> P0 \<and> P2 - P0 = A0 - A2 \<and>
           (A0 \<inter> P0 = {} \<longrightarrow> A2 \<inter> P2 = {})"
proof -
  from assms have s: "A2 \<subseteq> A1" "A1 \<subseteq> A0" "P0 \<subseteq> P1" "P1 \<subseteq> P2"
    and d: "P1 - P0 = A0 - A1" "P2 - P1 = A1 - A2"
    by simp_all
  have "P2 - P0 = (P2 - P1) \<union> (P1 - P0)"
    using s by auto
  also have "\<dots> = (A1 - A2) \<union> (A0 - A1)"
    by (simp only: d)
  also have "\<dots> = A0 - A2"
    using s by auto
  finally have "P2 - P0 = A0 - A2" .
  moreover from assms have "A2 \<union> P2 = A0 \<union> P0" by simp
  moreover from assms have "A0 \<inter> P0 = {} \<longrightarrow> A2 \<inter> P2 = {}" by simp
  ultimately show ?thesis using s by auto
qed

text \<open>
  One round of \<^verbatim>\<open>addTags\<close> moves at most one tag from the available to the pending
  ones: what the pending tags gain is what the available tags lose.
\<close>

lemma addTag_tags:
  "set (tagsAvailable (snd (addTag env opts cs t))) \<subseteq> set (tagsAvailable (snd cs)) \<and>
   set (tagsPending (snd cs)) \<subseteq> set (tagsPending (snd (addTag env opts cs t))) \<and>
   set (tagsAvailable (snd (addTag env opts cs t))) \<union> set (tagsPending (snd (addTag env opts cs t))) =
     set (tagsAvailable (snd cs)) \<union> set (tagsPending (snd cs)) \<and>
   set (tagsPending (snd (addTag env opts cs t))) - set (tagsPending (snd cs)) =
     set (tagsAvailable (snd cs)) - set (tagsAvailable (snd (addTag env opts cs t))) \<and>
   (set (tagsAvailable (snd cs)) \<inter> set (tagsPending (snd cs)) = {} \<longrightarrow>
      set (tagsAvailable (snd (addTag env opts cs t))) \<inter>
      set (tagsPending (snd (addTag env opts cs t))) = {})"
  by (auto simp: addTag_def Let_def set_set_add set_set_delete split: option.splits)

lemma addTags_fold_tags:
  "set (tagsAvailable (snd (foldl (addTag env opts) cs xs))) \<subseteq> set (tagsAvailable (snd cs)) \<and>
   set (tagsPending (snd cs)) \<subseteq> set (tagsPending (snd (foldl (addTag env opts) cs xs))) \<and>
   set (tagsAvailable (snd (foldl (addTag env opts) cs xs))) \<union>
     set (tagsPending (snd (foldl (addTag env opts) cs xs))) =
     set (tagsAvailable (snd cs)) \<union> set (tagsPending (snd cs)) \<and>
   set (tagsPending (snd (foldl (addTag env opts) cs xs))) - set (tagsPending (snd cs)) =
     set (tagsAvailable (snd cs)) - set (tagsAvailable (snd (foldl (addTag env opts) cs xs))) \<and>
   (set (tagsAvailable (snd cs)) \<inter> set (tagsPending (snd cs)) = {} \<longrightarrow>
      set (tagsAvailable (snd (foldl (addTag env opts) cs xs))) \<inter>
      set (tagsPending (snd (foldl (addTag env opts) cs xs))) = {})"
proof (induction xs arbitrary: cs)
  case Nil
  show ?case by simp
next
  case (Cons x xs)
  from move_compose [OF addTag_tags [of env opts cs x] Cons.IH [of "addTag env opts cs x"]]
  show ?case by simp
qed

lemma addTags_tags:
  "set (tagsAvailable (snd (addTags env opts tags s))) \<subseteq> set (tagsAvailable s) \<and>
   set (tagsPending s) \<subseteq> set (tagsPending (snd (addTags env opts tags s))) \<and>
   set (tagsAvailable (snd (addTags env opts tags s))) \<union>
     set (tagsPending (snd (addTags env opts tags s))) =
     set (tagsAvailable s) \<union> set (tagsPending s) \<and>
   set (tagsPending (snd (addTags env opts tags s))) - set (tagsPending s) =
     set (tagsAvailable s) - set (tagsAvailable (snd (addTags env opts tags s))) \<and>
   (set (tagsAvailable s) \<inter> set (tagsPending s) = {} \<longrightarrow>
      set (tagsAvailable (snd (addTags env opts tags s))) \<inter>
      set (tagsPending (snd (addTags env opts tags s))) = {})"
  unfolding addTags_def using addTags_fold_tags [of env opts "(False, s)" tags] by simp

lemma addTags_basic:
  "set (tagsAvailable (snd (addTags env opts tags s))) \<subseteq> set (tagsAvailable s)"
  "set (tagsAvailable (snd (addTags env opts tags s))) \<union>
     set (tagsPending (snd (addTags env opts tags s))) =
     set (tagsAvailable s) \<union> set (tagsPending s)"
  "set (tagsAvailable s) \<inter> set (tagsPending s) = {} \<Longrightarrow>
     set (tagsAvailable (snd (addTags env opts tags s))) \<inter>
     set (tagsPending (snd (addTags env opts tags s))) = {}"
  using addTags_tags [of env opts tags s] by simp_all

lemma addTags_disjoint:
  assumes "tags_disjoint s"
  shows "tags_disjoint (snd (addTags env opts tags s))"
proof -
  from assms have d: "set (tagsAvailable s) \<inter> set (tagsPending s) = {}"
    "set (tagsAvailable s) \<inter> set (tagsGenerated s) = {}"
    "set (tagsPending s) \<inter> set (tagsGenerated s) = {}"
    by (simp_all add: tags_disjoint_def)
  from addTags_basic(1) [of env opts tags s] d(2)
  have "set (tagsAvailable (snd (addTags env opts tags s))) \<inter> set (tagsGenerated s) = {}"
    by blast
  moreover from addTags_basic(2) [of env opts tags s] d(2) d(3)
  have "set (tagsPending (snd (addTags env opts tags s))) \<inter> set (tagsGenerated s) = {}"
    by blast
  ultimately show ?thesis
    using addTags_basic(3) [OF d(1), of env opts tags]
    by (simp add: tags_disjoint_def addTags_fields)
qed

lemma addClasses_tags_disjoint:
  assumes "tags_disjoint s"
  shows "tags_disjoint (snd (addClasses opts classes s))"
  using assms by (simp add: tags_disjoint_def addClasses_fields)

lemma clearCache_full_disjoint: "tags_disjoint (clearCache env opts True s)"
  by (simp add: tags_disjoint_def clearCache_fields clearCache_tagsAvailable)

text \<open>
  The bounds and the union of the tag sets under registry-only sequences, along the
  phase of the sequence.
\<close>

lemma registry_call_tags:
  assumes c: "registry_call c"
    and g: "tagsGenerated s = []"
    and a: "set (tagsAvailable s) \<subseteq>
              set (htmlTags env) - set (preflightTags env) - set (pf_safelist (preflightOptions opts))"
    and u: "set (tagsAvailable s) \<union> set (tagsPending s) =
              (case ph of Fresh \<Rightarrow> {}
               | Emptied \<Rightarrow> set (pf_safelist (preflightOptions opts))
               | Filled \<Rightarrow> set (htmlTags env) \<union> set (preflightTags env) \<union>
                   set (pf_safelist (preflightOptions opts)))"
  shows "tagsGenerated (call env opts s c) = [] \<and>
         set (tagsAvailable (call env opts s c)) \<subseteq>
           set (htmlTags env) - set (preflightTags env) - set (pf_safelist (preflightOptions opts)) \<and>
         set (tagsAvailable (call env opts s c)) \<union> set (tagsPending (call env opts s c)) =
           (case next_phase ph c of Fresh \<Rightarrow> {}
            | Emptied \<Rightarrow> set (pf_safelist (preflightOptions opts))
            | Filled \<Rightarrow> set (htmlTags env) \<union> set (preflightTags env) \<union>
                set (pf_safelist (preflightOptions opts)))"
proof (cases c)
  case (AddClasses classes)
  with g a u show ?thesis by (simp add: addClasses_fields)
next
  case (AddTags tags)
  from addTags_basic(1) [of env opts tags s] a
  have "set (tagsAvailable (snd (addTags env opts tags s))) \<subseteq>
      set (htmlTags env) - set (preflightTags env) - set (pf_safelist (preflightOptions opts))"
    by blast
  with g u AddTags show ?thesis
    by (simp add: addTags_fields addTags_basic(2))
next
  case (ClearCache clearAll)
  show ?thesis
  proof (cases clearAll)
    case True
    with ClearCache show ?thesis
      by (simp add: clearCache_fields clearCache_tagsPending clearCache_tagsAvailable)
  next
    case False
    have "set (tagsPending s) \<subseteq>
        set (htmlTags env) \<union> set (preflightTags env) \<union> set (pf_safelist (preflightOptions opts))"
      using u by (cases ph) auto
    with g a have "set (tagsAvailable s) \<union> set (htmlTags env) - set (preflightTags env) -
          set (pf_safelist (preflightOptions opts)) \<subseteq>
        set (htmlTags env) - set (preflightTags env) - set (pf_safelist (preflightOptions opts)) \<and>
        set (tagsAvailable s) \<union> set (htmlTags env) - set (preflightTags env) -
          set (pf_safelist (preflightOptions opts)) \<union>
        (set (tagsPending s) \<union> set (tagsGenerated s) \<union> set (preflightTags env) \<union>
          set (pf_safelist (preflightOptions opts))) =
        set (htmlTags env) \<union> set (preflightTags env) \<union> set (pf_safelist (preflightOptions opts))"
      by auto
    with ClearCache False show ?thesis
      by (simp add: clearCache_fields clearCache_tagsPending clearCache_tagsAvailable)
  qed
qed (use c in simp_all)

lemma registry_calls_tags:
  assumes "list_all registry_call cs"
    and "tagsGenerated s = []"
    and "set (tagsAvailable s) \<subseteq>
           set (htmlTags env) - set (preflightTags env) - set (pf_safelist (preflightOptions opts))"
    and "set (tagsAvailable s) \<union> set (tagsPending s) =
           (case ph of Fresh \<Rightarrow> {}
            | Emptied \<Rightarrow> set (pf_safelist (preflightOptions opts))
            | Filled \<Rightarrow> set (htmlTags env) \<union> set (preflightTags env) \<union>
                set (pf_safelist (preflightOptions opts)))"
  shows "tagsGenerated (foldl (call env opts) s cs) = [] \<and>
         set (tagsAvailable (foldl (call env opts) s cs)) \<subseteq>
           set (htmlTags env) - set (preflightTags env) - set (pf_safelist (preflightOptions opts)) \<and>
         set (tagsAvailable (foldl (call env opts) s cs)) \<union>
         set (tagsPending (foldl (call env opts) s cs)) =
           (case foldl next_phase ph cs of Fresh \<Rightarrow> {}
            | Emptied \<Rightarrow> set (pf_safelist (preflightOptions opts))
            | Filled \<Rightarrow> set (htmlTags env) \<union> set (preflightTags env) \<union>
                set (pf_safelist (preflightOptions opts)))"
  using assms
proof (induction cs arbitrary: s ph)
  case Nil
  then show ?case by simp
next
  case (Cons c cs)
  from Cons.prems have c: "registry_call c" and cs: "list_all registry_call cs"
    by simp_all
  note step = registry_call_tags [OF c Cons.prems(2) Cons.prems(3) Cons.prems(4)]
  from Cons.IH [OF cs step [THEN conjunct1] step [THEN conjunct2, THEN conjunct1]
      step [THEN conjunct2, THEN conjunct2]]
  show ?case by simp
qed

text \<open>
  Available and pending tags under registry-only sequences, along the number \<open>k\<close> of
  calls \<^verbatim>\<open>clearCache(false)\<close> so far: before the first one no tag is available and
  only safelisted tags are pending, and up to the first one the two sets are disjoint.
\<close>

lemma registry_call_disjoint:
  assumes c: "registry_call c"
    and g: "tagsGenerated s = []"
    and z: "k = 0 \<longrightarrow> set (tagsAvailable s) = {} \<and>
              set (tagsPending s) \<subseteq> set (pf_safelist (preflightOptions opts))"
    and d: "k \<le> 1 \<longrightarrow> set (tagsAvailable s) \<inter> set (tagsPending s) = {}"
  shows "tagsGenerated (call env opts s c) = [] \<and>
         (k + (if partial_clear c then 1 else 0) = (0::nat) \<longrightarrow>
            set (tagsAvailable (call env opts s c)) = {} \<and>
            set (tagsPending (call env opts s c)) \<subseteq> set (pf_safelist (preflightOptions opts))) \<and>
         (k + (if partial_clear c then 1 else 0) \<le> 1 \<longrightarrow>
            set (tagsAvailable (call env opts s c)) \<inter> set (tagsPending (call env opts s c)) = {})"
proof (cases c)
  case (AddClasses classes)
  with g z d show ?thesis by (simp add: addClasses_fields)
next
  case (AddTags tags)
  have e: "k = 0 \<longrightarrow> set (tagsAvailable (snd (addTags env opts tags s))) = {} \<and>
      set (tagsPending (snd (addTags env opts tags s))) \<subseteq> set (pf_safelist (preflightOptions opts))"
  proof
    assume "k = 0"
    with z have az: "set (tagsAvailable s) = {}"
      and pz: "set (tagsPending s) \<subseteq> set (pf_safelist (preflightOptions opts))"
      by simp_all
    from addTags_basic(1) [of env opts tags s] az
    have a': "set (tagsAvailable (snd (addTags env opts tags s))) = {}"
      by (simp only: subset_empty)
    from addTags_basic(2) [of env opts tags s] az a'
    have "set (tagsPending (snd (addTags env opts tags s))) = set (tagsPending s)"
      by (simp only: Un_empty_left)
    with a' pz
    show "set (tagsAvailable (snd (addTags env opts tags s))) = {} \<and>
      set (tagsPending (snd (addTags env opts tags s))) \<subseteq> set (pf_safelist (preflightOptions opts))"
      by simp
  qed
  have "k \<le> 1 \<longrightarrow> set (tagsAvailable (snd (addTags env opts tags s))) \<inter>
      set (tagsPending (snd (addTags env opts tags s))) = {}"
    using addTags_basic(3) [of s env opts tags] d by blast
  with g e AddTags show ?thesis
    by (simp add: addTags_fields)
next
  case (ClearCache clearAll)
  show ?thesis
  proof (cases clearAll)
    case True
    with ClearCache show ?thesis
      by (simp add: clearCache_fields clearCache_tagsPending clearCache_tagsAvailable)
  next
    case False
    have "k = 0 \<longrightarrow>
        (set (tagsAvailable s) \<union> set (htmlTags env) - set (preflightTags env) -
          set (pf_safelist (preflightOptions opts))) \<inter>
        (set (tagsPending s) \<union> set (tagsGenerated s) \<union> set (preflightTags env) \<union>
          set (pf_safelist (preflightOptions opts))) = {}"
      using g z by auto
    with ClearCache False show ?thesis
      by (simp add: clearCache_fields clearCache_tagsPending clearCache_tagsAvailable)
  qed
qed (use c in simp_all)

lemma registry_calls_disjoint:
  assumes "list_all registry_call cs"
    and "tagsGenerated s = []"
    and "k = 0 \<longrightarrow> set (tagsAvailable s) = {} \<and>
           set (tagsPending s) \<subseteq> set (pf_safelist (preflightOptions opts))"
    and "k \<le> 1 \<longrightarrow> set (tagsAvailable s) \<inter> set (tagsPending s) = {}"
  shows "k + length (filter partial_clear cs) \<le> 1 \<longrightarrow>
           set (tagsAvailable (foldl (call env opts) s cs)) \<inter>
           set (tagsPending (foldl (call env opts) s cs)) = {}"
  using assms
proof (induction cs arbitrary: s k)
  case Nil
  then show ?case by simp
next
  case (Cons c cs)
  from Cons.prems have c: "registry_call c" and cs: "list_all registry_call cs"
    by simp_all
  note step = registry_call_disjoint [OF c Cons.prems(2) Cons.prems(3) Cons.prems(4)]
  from Cons.IH [OF cs step [THEN conjunct1] step [THEN conjunct2, THEN conjunct1]
      step [THEN conjunct2, THEN conjunct2]]
  show ?case by (simp add: add.assoc)
qed

text \<open>
  C1, as amended. After every sequence of calls of \<^verbatim>\<open>addTags\<close>, \<^verbatim>\<open>clearCache\<close> (in
  either mode) and \<^verbatim>\<open>addClasses\<close> from the initial state: no tag is generated; the
  available tags are HTML tags that are neither preflight tags nor on the preflight
  safelist; the pending tags are HTML tags, preflight tags or safelisted tags; the three
  sets together are empty before the first \<^verbatim>\<open>clearCache\<close>, the preflight safelist
  when the last \<^verbatim>\<open>clearCache\<close> was a full one, and the HTML tags, the preflight tags
  and the preflight safelist when it was not. When the sequence has at most one
  \<^verbatim>\<open>clearCache(false)\<close>, the three sets are disjoint two by two. From any state in
  which they are, \<^verbatim>\<open>addTags\<close> and \<^verbatim>\<open>addClasses\<close> keep them so, and
  \<^verbatim>\<open>clearCache(true)\<close> makes them so from any state. The tags that \<^verbatim>\<open>addTags\<close> adds
  to the pending ones are exactly those it takes from the available ones.
\<close>

theorem C1_tag_sets:
  "(list_all registry_call cs \<longrightarrow>
      tagsGenerated (run_calls env opts cs initial) = [] \<and>
      set (tagsAvailable (run_calls env opts cs initial)) \<subseteq>
        set (htmlTags env) - set (preflightTags env) - set (pf_safelist (preflightOptions opts)) \<and>
      set (tagsPending (run_calls env opts cs initial)) \<subseteq>
        set (htmlTags env) \<union> set (preflightTags env) \<union> set (pf_safelist (preflightOptions opts)) \<and>
      set (tagsAvailable (run_calls env opts cs initial)) \<union>
      set (tagsPending (run_calls env opts cs initial)) \<union>
      set (tagsGenerated (run_calls env opts cs initial)) =
        (case tag_phase cs of
           Fresh \<Rightarrow> {}
         | Emptied \<Rightarrow> set (pf_safelist (preflightOptions opts))
         | Filled \<Rightarrow> set (htmlTags env) \<union> set (preflightTags env) \<union>
             set (pf_safelist (preflightOptions opts))) \<and>
      (length (filter partial_clear cs) \<le> 1 \<longrightarrow>
         tags_disjoint (run_calls env opts cs initial))) \<and>
   (tags_disjoint s \<longrightarrow>
      tags_disjoint (snd (addTags env opts tags s)) \<and>
      tags_disjoint (snd (addClasses opts classes s))) \<and>
   tags_disjoint (clearCache env opts True s) \<and>
   set (tagsPending (snd (addTags env opts tags s))) - set (tagsPending s) =
     set (tagsAvailable s) - set (tagsAvailable (snd (addTags env opts tags s)))"
proof -
  have run: "tagsGenerated (run_calls env opts cs initial) = [] \<and>
      set (tagsAvailable (run_calls env opts cs initial)) \<subseteq>
        set (htmlTags env) - set (preflightTags env) - set (pf_safelist (preflightOptions opts)) \<and>
      set (tagsPending (run_calls env opts cs initial)) \<subseteq>
        set (htmlTags env) \<union> set (preflightTags env) \<union> set (pf_safelist (preflightOptions opts)) \<and>
      set (tagsAvailable (run_calls env opts cs initial)) \<union>
      set (tagsPending (run_calls env opts cs initial)) \<union>
      set (tagsGenerated (run_calls env opts cs initial)) =
        (case tag_phase cs of
           Fresh \<Rightarrow> {}
         | Emptied \<Rightarrow> set (pf_safelist (preflightOptions opts))
         | Filled \<Rightarrow> set (htmlTags env) \<union> set (preflightTags env) \<union>
             set (pf_safelist (preflightOptions opts))) \<and>
      (length (filter partial_clear cs) \<le> 1 \<longrightarrow>
         tags_disjoint (run_calls env opts cs initial))"
    if cs: "list_all registry_call cs"
  proof -
    have i: "tagsGenerated initial = []" "tagsAvailable initial = []" "tagsPending initial = []"
      by (simp_all add: initial_def)
    from registry_calls_tags [of cs initial env opts Fresh] cs i
    have b: "tagsGenerated (run_calls env opts cs initial) = []"
      "set (tagsAvailable (run_calls env opts cs initial)) \<subseteq>
        set (htmlTags env) - set (preflightTags env) - set (pf_safelist (preflightOptions opts))"
      "set (tagsAvailable (run_calls env opts cs initial)) \<union>
       set (tagsPending (run_calls env opts cs initial)) =
        (case tag_phase cs of
           Fresh \<Rightarrow> {}
         | Emptied \<Rightarrow> set (pf_safelist (preflightOptions opts))
         | Filled \<Rightarrow> set (htmlTags env) \<union> set (preflightTags env) \<union>
             set (pf_safelist (preflightOptions opts)))"
      by (simp_all add: run_calls_def tag_phase_def)
    from b(3) have p: "set (tagsPending (run_calls env opts cs initial)) \<subseteq>
        set (htmlTags env) \<union> set (preflightTags env) \<union> set (pf_safelist (preflightOptions opts))"
      by (cases "tag_phase cs") auto
    from registry_calls_disjoint [of cs initial 0 opts env] cs i
    have "length (filter partial_clear cs) \<le> 1 \<longrightarrow>
        set (tagsAvailable (run_calls env opts cs initial)) \<inter>
        set (tagsPending (run_calls env opts cs initial)) = {}"
      by (simp add: run_calls_def)
    then have d: "length (filter partial_clear cs) \<le> 1 \<longrightarrow>
        tags_disjoint (run_calls env opts cs initial)"
      by (simp add: tags_disjoint_def b(1))
    from b p d show ?thesis by simp
  qed
  have keep: "tags_disjoint s \<longrightarrow>
      tags_disjoint (snd (addTags env opts tags s)) \<and>
      tags_disjoint (snd (addClasses opts classes s))"
    using addTags_disjoint addClasses_tags_disjoint by blast
  have move: "set (tagsPending (snd (addTags env opts tags s))) - set (tagsPending s) =
     set (tagsAvailable s) - set (tagsAvailable (snd (addTags env opts tags s)))"
    using addTags_tags [of env opts tags s] by simp
  from run keep clearCache_full_disjoint [of env opts s] move show ?thesis by blast
qed

theorem C1_tag_sets_witness:
  "list_all registry_call ex_calls1 \<and> length (filter partial_clear ex_calls1) \<le> 1 \<and>
   tag_phase ex_calls1 = Filled \<and>
   tagsAvailable (run_calls ex_env ex_opts ex_calls1 initial) = [''img''] \<and>
   tagsPending (run_calls ex_env ex_opts ex_calls1 initial) =
     [''html'', ''body'', ''div'', ''p'', ''a''] \<and>
   tags_disjoint (run_calls ex_env ex_opts ex_calls1 initial) \<and>
   set (tagsAvailable (run_calls ex_env ex_opts ex_calls1 initial)) \<union>
   set (tagsPending (run_calls ex_env ex_opts ex_calls1 initial)) \<union>
   set (tagsGenerated (run_calls ex_env ex_opts ex_calls1 initial)) =
     set (htmlTags ex_env) \<union> set (preflightTags ex_env) \<union>
     set (pf_safelist (preflightOptions ex_opts)) \<and>
   tags_disjoint ex_state \<and>
   tags_disjoint (snd (addTags ex_env ex_opts [''img'', ''IMG''] ex_state))"
proof -
  have h: "list_all registry_call ex_calls1" "length (filter partial_clear ex_calls1) \<le> 1"
    "tag_phase ex_calls1 = Filled"
    by (simp_all add: ex_calls1_def tag_phase_def)
  have a: "tagsAvailable (run_calls ex_env ex_opts ex_calls1 initial) = [''img'']"
    by (simp add: run_calls_def ex_calls1_def clearCache_def addTags_def addTag_def Let_def
        initial_def ex_env_def ex_opts_def set_add_def set_delete_def)
  have p: "tagsPending (run_calls ex_env ex_opts ex_calls1 initial) =
     [''html'', ''body'', ''div'', ''p'', ''a'']"
    by (simp add: run_calls_def ex_calls1_def clearCache_def addTags_def addTag_def Let_def
        initial_def ex_env_def ex_opts_def set_add_def set_delete_def)
  have e: "tags_disjoint ex_state"
    by (simp add: tags_disjoint_def ex_state_def)
  note r = C1_tag_sets [of ex_calls1 ex_env ex_opts ex_state "[''img'', ''IMG'']" "[]"]
  note run = r [THEN conjunct1, THEN mp, OF h(1)]
  note d = run [THEN conjunct2, THEN conjunct2, THEN conjunct2, THEN conjunct2, THEN mp, OF h(2)]
  note u = run [THEN conjunct2, THEN conjunct2, THEN conjunct2, THEN conjunct1]
  note k = r [THEN conjunct2, THEN conjunct1, THEN mp, OF e, THEN conjunct1]
  from u have "set (tagsAvailable (run_calls ex_env ex_opts ex_calls1 initial)) \<union>
      set (tagsPending (run_calls ex_env ex_opts ex_calls1 initial)) \<union>
      set (tagsGenerated (run_calls ex_env ex_opts ex_calls1 initial)) =
      set (htmlTags ex_env) \<union> set (preflightTags ex_env) \<union>
      set (pf_safelist (preflightOptions ex_opts))"
    by (simp only: h(3) TagPhase.case)
  with h a p e d k show ?thesis by blast
qed

text \<open>
  The claim C1 as it stands fails, in each of its two parts, with the example options.
  The calls \<^verbatim>\<open>clearCache(false)\<close>, \<^verbatim>\<open>addTags(['a'])\<close>, \<^verbatim>\<open>clearCache(false)\<close> from the
  initial state leave the tag \<open>a\<close> both available and pending: the first two calls
  move it to the pending tags, and the third puts every HTML tag back among the
  available ones. As to the union: before any call the three sets are empty and after
  \<^verbatim>\<open>clearCache(true)\<close> they hold the safelisted tag only, while \<open>a\<close> is an HTML tag
  that nothing blocks; and after \<^verbatim>\<open>clearCache(false)\<close> the blocklisted tag \<open>img\<close> is
  available and the preflight tag \<open>html\<close> is pending, so the union leaves out neither
  kind of excluded tag.
\<close>

theorem C1_counterexample:
  "set (tagsAvailable (run_calls ex_env ex_opts ex_calls initial)) \<inter>
   set (tagsPending (run_calls ex_env ex_opts ex_calls initial)) = {''a''} \<and>
   set (tagsAvailable (run_calls ex_env ex_opts [] initial)) \<union>
   set (tagsPending (run_calls ex_env ex_opts [] initial)) \<union>
   set (tagsGenerated (run_calls ex_env ex_opts [] initial)) = {} \<and>
   set (tagsAvailable (run_calls ex_env ex_opts [ClearCache True] initial)) \<union>
   set (tagsPending (run_calls ex_env ex_opts [ClearCache True] initial)) \<union>
   set (tagsGenerated (run_calls ex_env ex_opts [ClearCache True] initial)) = {''p''} \<and>
   ''a'' \<in> set (htmlTags ex_env) - set (preflightTags ex_env) -
     set (pf_safelist (preflightOptions ex_opts)) - set (pf_blocklist (preflightOptions ex_opts)) \<and>
   ''img'' \<in> set (pf_blocklist (preflightOptions ex_opts)) \<inter>
     set (tagsAvailable (run_calls ex_env ex_opts [ClearCache False] initial)) \<and>
   ''html'' \<in> set (preflightTags ex_env) \<inter>
     set (tagsPending (run_calls ex_env ex_opts [ClearCache False] initial))"
proof -
  have 1: "tagsAvailable (run_calls ex_env ex_opts ex_calls initial) = [''img'', ''a'']"
    by (simp add: run_calls_def ex_calls_def clearCache_def addTags_def addTag_def Let_def
        initial_def ex_env_def ex_opts_def set_add_def set_delete_def)
  have 2: "tagsPending (run_calls ex_env ex_opts ex_calls initial) =
      [''html'', ''body'', ''div'', ''p'', ''a'']"
    by (simp add: run_calls_def ex_calls_def clearCache_def addTags_def addTag_def Let_def
        initial_def ex_env_def ex_opts_def set_add_def set_delete_def)
  have 3: "run_calls ex_env ex_opts [] initial = initial"
    by (simp add: run_calls_def)
  have 4: "tagsAvailable (run_calls ex_env ex_opts [ClearCache True] initial) = []"
    "tagsPending (run_calls ex_env ex_opts [ClearCache True] initial) = [''p'']"
    "tagsGenerated (run_calls ex_env ex_opts [ClearCache True] initial) = []"
    by (simp_all add: run_calls_def clearCache_def Let_def initial_def ex_env_def ex_opts_def
        set_add_def set_delete_def)
  have 5: "tagsAvailable (run_calls ex_env ex_opts [ClearCache False] initial) = [''a'', ''img'']"
    "tagsPending (run_calls ex_env ex_opts [ClearCache False] initial) =
       [''html'', ''body'', ''div'', ''p'']"
    by (simp_all add: run_calls_def clearCache_def Let_def initial_def ex_env_def ex_opts_def
        set_add_def set_delete_def)
  have 6: "set [''img'', ''a''] \<inter> set [''html'', ''body'', ''div'', ''p'', ''a''] = {''a''}"
    by auto
  show ?thesis
    unfolding 1 2 3 4 5 6 by (simp add: initial_def ex_env_def ex_opts_def)
qed

text \<open>
  C4. For every state, \<^verbatim>\<open>clearCache(false)\<close> adds the generated classes and the
  safelist to the pending classes, adds the generated tags, the preflight tags and the
  preflight safelist to the pending tags, empties both generated sets, resets the
  cached text and the timestamp of every layer and the completions cache, and makes the
  available tags the old ones and all HTML tags, minus the preflight tags and the
  preflight safelist: when the old ones are HTML tags, as in every state the operations
  reach, exactly the HTML tags minus those two.
\<close>

theorem C4_clearCache_partial:
  "set (classesPending (clearCache env opts False s)) =
     set (classesPending s) \<union> set (classesGenerated s) \<union> set (safelist opts) \<and>
   set (tagsPending (clearCache env opts False s)) =
     set (tagsPending s) \<union> set (tagsGenerated s) \<union> set (preflightTags env) \<union>
     set (pf_safelist (preflightOptions opts)) \<and>
   classesGenerated (clearCache env opts False s) = [] \<and>
   tagsGenerated (clearCache env opts False s) = [] \<and>
   cssCache (get_layer (layers (clearCache env opts False s)) name) = None \<and>
   timestamp (get_layer (layers (clearCache env opts False s)) name) = None \<and>
   completions (clearCache env opts False s) = None \<and>
   set (tagsAvailable (clearCache env opts False s)) =
     (set (tagsAvailable s) \<union> set (htmlTags env)) - set (preflightTags env) -
     set (pf_safelist (preflightOptions opts)) \<and>
   (set (tagsAvailable s) \<subseteq> set (htmlTags env) \<longrightarrow>
      set (tagsAvailable (clearCache env opts False s)) =
        set (htmlTags env) - set (preflightTags env) - set (pf_safelist (preflightOptions opts)))"
proof -
  have l: "cssCache (get_layer (layers (clearCache env opts False s)) name) = None \<and>
           timestamp (get_layer (layers (clearCache env opts False s)) name) = None"
    by (cases name) (simp_all add: clearCache_fields empty_meta_def)
  have a: "set (tagsAvailable s) \<subseteq> set (htmlTags env) \<longrightarrow>
      set (tagsAvailable (clearCache env opts False s)) =
        set (htmlTags env) - set (preflightTags env) - set (pf_safelist (preflightOptions opts))"
    by (auto simp: clearCache_tagsAvailable)
  from l a show ?thesis
    by (simp add: clearCache_fields clearCache_classesPending clearCache_tagsPending
        clearCache_tagsAvailable)
qed

theorem C4_clearCache_partial_witness:
  "set (tagsAvailable ex_state) \<subseteq> set (htmlTags ex_env) \<and>
   classesPending (clearCache ex_env ex_opts False ex_state) = [''m-1'', ''p-4'', ''prose''] \<and>
   tagsPending (clearCache ex_env ex_opts False ex_state) =
     [''html'', ''a'', ''body'', ''div'', ''p''] \<and>
   cssCache (get_layer (layers (clearCache ex_env ex_opts False ex_state)) Utilities) = None \<and>
   set (tagsAvailable (clearCache ex_env ex_opts False ex_state)) =
     set (htmlTags ex_env) - set (preflightTags ex_env) - set (pf_safelist (preflightOptions ex_opts))"
proof -
  have h: "set (tagsAvailable ex_state) \<subseteq> set (htmlTags ex_env)"
    by (simp add: ex_state_def ex_env_def)
  have c: "classesPending (clearCache ex_env ex_opts False ex_state) = [''m-1'', ''p-4'', ''prose'']"
    by (simp add: clearCache_def Let_def ex_state_def ex_env_def ex_opts_def set_add_def)
  have t: "tagsPending (clearCache ex_env ex_opts False ex_state) =
     [''html'', ''a'', ''body'', ''div'', ''p'']"
    by (simp add: clearCache_def Let_def ex_state_def ex_env_def ex_opts_def set_add_def)
  from C4_clearCache_partial [of ex_env ex_opts ex_state Utilities] h c t
  show ?thesis by blast
qed

subsection \<open>The layer store\<close>

lemma map_get_map_set:
  "map_get (map_set m k v) k' = (if k' = k then Some v else map_get m k')"
  by (induction m k v rule: map_set.induct) auto

lemma set_add_types: "set (add_types c styles) = set c \<union> meta_type ` set styles"
  unfolding add_types_def
  by (induction styles arbitrary: c) (auto simp: set_set_add)

lemma set_changedLayers:
  "set (changedLayers styles filepath replace s) =
     meta_type ` set styles \<union> (if replace then meta_type ` set (contribution s filepath) else {})"
  by (auto simp: changedLayers_def contribution_def Let_def set_add_types split: option.splits)

lemma get_layer_set_layer:
  "get_layer (set_layer ls n m) n' = (if n' = n then m else get_layer ls n')"
  by (cases n; cases n') simp_all

lemma get_layer_invalidate:
  "get_layer (foldl (\<lambda>ls name. set_layer ls name
       ((get_layer ls name)\<lparr>timestamp := Some now, cssCache := None\<rparr>)) ls changed) n =
     (if n \<in> set changed then (get_layer ls n)\<lparr>timestamp := Some now, cssCache := None\<rparr>
      else get_layer ls n)"
proof (induction changed arbitrary: ls)
  case Nil
  show ?case by simp
next
  case (Cons c changed)
  show ?case
    by (simp add: Cons.IH get_layer_set_layer)
qed

lemma updateLayers_layer:
  "get_layer (layers (updateLayers now styles filepath replace s)) name =
     (if name \<in> set (changedLayers styles filepath replace s)
      then (get_layer (layers s) name)\<lparr>timestamp := Some now, cssCache := None\<rparr>
      else get_layer (layers s) name)"
  by (simp add: updateLayers_def Let_def get_layer_invalidate)

lemma updateLayers_store:
  "map_get (layerStylesMap (updateLayers now styles filepath replace s)) k =
     (if k = filepath
      then Some (if replace then styles else contribution s filepath @ styles)
      else map_get (layerStylesMap s) k)"
  by (simp add: updateLayers_def Let_def map_get_map_set contribution_def)


text \<open>
  C5. For every list of styles, key and replace flag, \<^verbatim>\<open>updateLayers\<close> clears the
  cached text of a layer and stamps it with the new time exactly when the layer occurs
  in the new styles or, in replace mode, in the styles stored under the key before; all
  other layers keep their entry. Afterwards the key holds the new styles in replace
  mode, and the old styles followed by the new ones otherwise; no other key changes. So
  two calls in replace mode for one key leave the styles of the second call.
\<close>

theorem C5_updateLayers:
  "get_layer (layers (updateLayers now styles filepath replace s)) name =
     (if name \<in> meta_type ` set styles \<union>
                (if replace then meta_type ` set (contribution s filepath) else {})
      then (get_layer (layers s) name)\<lparr>timestamp := Some now, cssCache := None\<rparr>
      else get_layer (layers s) name) \<and>
   contribution (updateLayers now styles filepath replace s) filepath =
     (if replace then styles else contribution s filepath @ styles) \<and>
   (k \<noteq> filepath \<longrightarrow>
      map_get (layerStylesMap (updateLayers now styles filepath replace s)) k =
      map_get (layerStylesMap s) k) \<and>
   contribution (updateLayers now' styles' filepath True
      (updateLayers now styles filepath True s)) filepath = styles'"
  by (simp add: updateLayers_layer set_changedLayers contribution_def updateLayers_store)

theorem C5_updateLayers_witness:
  "''__classes'' \<noteq> ''/src/main.css'' \<and>
   get_layer (layers (updateLayers 7 [\<lparr>meta_type = Utilities, payload = ''.x{}''\<rparr>]
       ''/src/main.css'' True ex_state)) Base = \<lparr>cssCache = None, timestamp = Some 7\<rparr> \<and>
   contribution (updateLayers 7 [\<lparr>meta_type = Utilities, payload = ''.x{}''\<rparr>]
       ''/src/main.css'' True ex_state) ''/src/main.css'' =
     [\<lparr>meta_type = Utilities, payload = ''.x{}''\<rparr>] \<and>
   map_get (layerStylesMap (updateLayers 7 [\<lparr>meta_type = Utilities, payload = ''.x{}''\<rparr>]
       ''/src/main.css'' True ex_state)) ''__classes'' =
     Some [\<lparr>meta_type = Utilities, payload = ''.p-4{}''\<rparr>]"
proof -
  have h: "''__classes'' \<noteq> ''/src/main.css''" by simp
  have c: "contribution ex_state ''/src/main.css'' =
      [\<lparr>meta_type = Base, payload = ''h1{}''\<rparr>, \<lparr>meta_type = Components, payload = ''.btn{}''\<rparr>]"
    by (simp add: contribution_def ex_state_def)
  have m: "map_get (layerStylesMap ex_state) ''__classes'' =
      Some [\<lparr>meta_type = Utilities, payload = ''.p-4{}''\<rparr>]"
    by (simp add: ex_state_def)
  have b: "get_layer (layers ex_state) Base = \<lparr>cssCache = Some ''/* base */'', timestamp = Some 1\<rparr>"
    by (simp add: ex_state_def)
  from C5_updateLayers [of 7 "[\<lparr>meta_type = Utilities, payload = ''.x{}''\<rparr>]"
      "''/src/main.css''" True ex_state Base "''__classes''"] h c m b
  show ?thesis by simp
qed

subsection \<open>The layer cache\<close>

lemma buildLayerCss_cached:
  assumes "cssCache (get_layer (layers s) name) = Some css"
  shows "buildLayerCss env opts name s = (css, s)"
  using assms by (simp add: buildLayerCss_def)

lemma buildLayerCss_miss:
  assumes "cssCache (get_layer (layers s) name) = None"
  shows "fst (buildLayerCss env opts name s) = layer_css env opts name (layerStylesMap s)"
    and "get_layer (layers (snd (buildLayerCss env opts name s))) n =
           (if n = name
            then (get_layer (layers s) name)\<lparr>cssCache := Some (layer_css env opts name (layerStylesMap s))\<rparr>
            else get_layer (layers s) n)"
  using assms by (simp_all add: buildLayerCss_def Let_def get_layer_set_layer)

lemma buildLayerCss_memo:
  "cssCache (get_layer (layers (snd (buildLayerCss env opts name s))) name) =
     Some (fst (buildLayerCss env opts name s))"
  by (cases "cssCache (get_layer (layers s) name)")
    (simp_all add: buildLayerCss_miss buildLayerCss_cached)

lemma buildLayerCss_other:
  assumes "n \<noteq> name"
  shows "get_layer (layers (snd (buildLayerCss env opts name s))) n = get_layer (layers s) n"
  using assms
  by (cases "cssCache (get_layer (layers s) name)")
    (simp_all add: buildLayerCss_miss buildLayerCss_cached)

lemma layer_call_keeps_cache:
  assumes "cssCache (get_layer (layers s) name) = Some css"
    and "layer_call c" and "\<not> touches name c s"
  shows "cssCache (get_layer (layers (call env opts s c)) name) = Some css"
proof (cases c)
  case (UpdateLayers now styles filepath replace)
  with assms show ?thesis by (simp add: updateLayers_layer)
next
  case (BuildLayerCss n)
  show ?thesis
  proof (cases "n = name")
    case True
    with assms(1) BuildLayerCss show ?thesis by (simp add: buildLayerCss_cached)
  next
    case False
    then have "name \<noteq> n" by simp
    with assms(1) BuildLayerCss show ?thesis by (simp add: buildLayerCss_other)
  qed
qed (use assms(2) in simp_all)

lemma untouched_keeps_cache:
  assumes "untouched env opts name cs s"
    and "cssCache (get_layer (layers s) name) = Some css"
  shows "cssCache (get_layer (layers (run_calls env opts cs s)) name) = Some css"
  using assms unfolding run_calls_def
proof (induction cs arbitrary: s)
  case Nil
  then show ?case by simp
next
  case (Cons c cs)
  from Cons.prems have c: "layer_call c" "\<not> touches name c s"
    and cs: "untouched env opts name cs (call env opts s c)"
    by simp_all
  from layer_call_keeps_cache [OF Cons.prems(2) c]
  have "cssCache (get_layer (layers (call env opts s c)) name) = Some css" .
  from Cons.IH [OF cs this] show ?case by simp
qed

text \<open>
  C6. When \<^verbatim>\<open>updateLayers\<close> invalidates a layer, the layer has no cached text; the
  next \<^verbatim>\<open>buildLayerCss\<close> of that layer computes the text from the stored styles and
  stores it; after any further calls of \<^verbatim>\<open>updateLayers\<close> that do not touch the layer
  and of \<^verbatim>\<open>buildLayerCss\<close>, a call of \<^verbatim>\<open>buildLayerCss\<close> for the layer returns that
  same text and changes nothing, whatever the style sheet builder and the options would
  compute now. In any state, a layer with a cached text is answered with that text and
  no change of state.
\<close>

theorem C6_cache_coherence:
  fixes env env' :: Env and opts opts' :: ResolvedOptions
    and now :: nat and styles :: "Style list" and filepath :: string and replace :: bool
    and s s0 :: Utils and name :: LayerName
  defines "s1 \<equiv> updateLayers now styles filepath replace s"
  defines "s2 \<equiv> snd (buildLayerCss env opts name s1)"
  defines "css \<equiv> fst (buildLayerCss env opts name s1)"
  shows "(name \<in> set (changedLayers styles filepath replace s) \<longrightarrow>
            cssCache (get_layer (layers s1) name) = None \<and>
            css = layer_css env opts name (layerStylesMap s1) \<and>
            cssCache (get_layer (layers s2) name) = Some css \<and>
            (untouched env opts name cs s2 \<longrightarrow>
               buildLayerCss env' opts' name (run_calls env opts cs s2) =
                 (css, run_calls env opts cs s2))) \<and>
         (cssCache (get_layer (layers s0) name) = Some css0 \<longrightarrow>
            buildLayerCss env opts name s0 = (css0, s0))"
proof -
  have memo: "cssCache (get_layer (layers s2) name) = Some css"
    unfolding s2_def css_def by (rule buildLayerCss_memo)
  have later: "untouched env opts name cs s2 \<longrightarrow>
      buildLayerCss env' opts' name (run_calls env opts cs s2) = (css, run_calls env opts cs s2)"
  proof
    assume "untouched env opts name cs s2"
    from untouched_keeps_cache [OF this memo]
    show "buildLayerCss env' opts' name (run_calls env opts cs s2) = (css, run_calls env opts cs s2)"
      by (rule buildLayerCss_cached)
  qed
  have first: "name \<in> set (changedLayers styles filepath replace s) \<longrightarrow>
      cssCache (get_layer (layers s1) name) = None \<and>
      css = layer_css env opts name (layerStylesMap s1)"
  proof
    assume "name \<in> set (changedLayers styles filepath replace s)"
    then have n: "cssCache (get_layer (layers s1) name) = None"
      unfolding s1_def by (simp add: updateLayers_layer)
    from buildLayerCss_miss(1) [OF n] n
    show "cssCache (get_layer (layers s1) name) = None \<and>
      css = layer_css env opts name (layerStylesMap s1)"
      unfolding css_def by simp
  qed
  have hit: "cssCache (get_layer (layers s0) name) = Some css0 \<longrightarrow>
      buildLayerCss env opts name s0 = (css0, s0)"
    using buildLayerCss_cached by blast
  from memo later first hit show ?thesis by blast
qed

theorem C6_cache_coherence_witness:
  "Utilities \<in> set (changedLayers ex_styles ''/src/main.css'' True ex_state) \<and>
   untouched ex_env ex_opts Utilities ex_later
     (snd (buildLayerCss ex_env ex_opts Utilities
        (updateLayers 7 ex_styles ''/src/main.css'' True ex_state))) \<and>
   cssCache (get_layer (layers ex_state) Utilities) = Some ''/* utilities */'' \<and>
   fst (buildLayerCss ex_env ex_opts Utilities
        (updateLayers 7 ex_styles ''/src/main.css'' True ex_state)) =
     banner Utilities @ ''.p-4{}.x{}'' \<and>
   fst (buildLayerCss (ex_env\<lparr>sheet_build := (\<lambda>p xs. [])\<rparr>) ex_opts Utilities
     (run_calls ex_env ex_opts ex_later
        (snd (buildLayerCss ex_env ex_opts Utilities
           (updateLayers 7 ex_styles ''/src/main.css'' True ex_state))))) =
     banner Utilities @ ''.p-4{}.x{}'' \<and>
   buildLayerCss ex_env ex_opts Utilities ex_state = (''/* utilities */'', ex_state)"
proof -
  have h1: "Utilities \<in> set (changedLayers ex_styles ''/src/main.css'' True ex_state)"
    by (simp add: set_changedLayers ex_styles_def)
  have s1: "layerStylesMap (updateLayers 7 ex_styles ''/src/main.css'' True ex_state) =
      [(''__classes'', [\<lparr>meta_type = Utilities, payload = ''.p-4{}''\<rparr>]),
       (''/src/main.css'', ex_styles)]"
    by (simp add: updateLayers_def Let_def ex_state_def)
  have n: "cssCache (get_layer (layers (updateLayers 7 ex_styles ''/src/main.css'' True ex_state))
      Utilities) = None"
    using h1 by (simp only: updateLayers_layer) simp
  have t: "fst (buildLayerCss ex_env ex_opts Utilities
        (updateLayers 7 ex_styles ''/src/main.css'' True ex_state)) =
     banner Utilities @ ''.p-4{}.x{}''"
    unfolding buildLayerCss_miss(1) [OF n] s1
    by (simp add: layer_css_def layer_styles_def map_values_def ex_styles_def ex_env_def
        ex_opts_def)
  have h2: "untouched ex_env ex_opts Utilities ex_later
     (snd (buildLayerCss ex_env ex_opts Utilities
        (updateLayers 7 ex_styles ''/src/main.css'' True ex_state)))"
    by (simp add: ex_later_def set_changedLayers contribution_def buildLayerCss_fields s1)
  have h3: "cssCache (get_layer (layers ex_state) Utilities) = Some ''/* utilities */''"
    by (simp add: ex_state_def)
  from C6_cache_coherence [of Utilities ex_styles "''/src/main.css''" True ex_state 7
      ex_env ex_opts ex_later "ex_env\<lparr>sheet_build := (\<lambda>p xs. [])\<rparr>" ex_opts
      ex_state "''/* utilities */''"] h1 h2 h3 t
  show ?thesis by simp
qed

subsection \<open>The compiler bridge\<close>

lemma buildPendingPreflights_store:
  assumes "k \<noteq> ''__preflights''"
  shows "map_get (layerStylesMap (buildPendingPreflights opts proc now s)) k =
         map_get (layerStylesMap s) k"
  using assms by (simp add: buildPendingPreflights_def Let_def updateLayers_store)

lemma buildPendingPreflights_classes_key:
  "contribution (buildPendingPreflights opts proc now s) ''__classes'' =
     contribution s ''__classes''"
  by (simp add: contribution_def buildPendingPreflights_store)

lemma buildPendingClasses_success:
  assumes "classesPending s \<noteq> []"
    and "success (proc_interpret proc (join '' '' (classesPending s))) \<noteq> []"
  shows "buildPendingClasses proc now s =
     (updateLayers now (styleSheet_children (proc_interpret proc (join '' '' (classesPending s))))
        ''__classes'' False s)
     \<lparr>classesGenerated := include_set (classesGenerated s)
          (success (proc_interpret proc (join '' '' (classesPending s)))),
      classesPending := []\<rparr>"
  using assms by (simp add: buildPendingClasses_def Let_def updateLayers_fields)

lemma buildPendingClasses_failure:
  assumes "success (proc_interpret proc (join '' '' (classesPending s))) = []"
  shows "buildPendingClasses proc now s = s"
  using assms by (simp add: buildPendingClasses_def Let_def)

text \<open>
  C7. For every state with pending classes for which \<^verbatim>\<open>interpret\<close> reports at least
  one compiled token, \<^verbatim>\<open>buildPendingStyles\<close> appends the styles of the result to the
  contribution of the key \<^verbatim>\<open>__classes\<close>, adds the compiled tokens to the generated
  classes and leaves no class pending, whether it was compiled or not.
\<close>

theorem C7_buildPendingStyles_success:
  fixes opts :: ResolvedOptions and proc :: Processor and now1 now2 :: nat and s :: Utils
  defines "result \<equiv> proc_interpret proc (join '' '' (classesPending s))"
  defines "s' \<equiv> buildPendingStyles opts proc now1 now2 s"
  shows "classesPending s \<noteq> [] \<and> success result \<noteq> [] \<longrightarrow>
           contribution s' ''__classes'' =
             contribution s ''__classes'' @ styleSheet_children result \<and>
           set (classesGenerated s') = set (classesGenerated s) \<union> set (success result) \<and>
           classesPending s' = []"
proof
  assume h: "classesPending s \<noteq> [] \<and> success result \<noteq> []"
  then have c: "buildPendingClasses proc now1 s =
     (updateLayers now1 (styleSheet_children result) ''__classes'' False s)
     \<lparr>classesGenerated := include_set (classesGenerated s) (success result),
      classesPending := []\<rparr>"
    unfolding result_def by (simp add: buildPendingClasses_success)
  have "contribution (buildPendingClasses proc now1 s) ''__classes'' =
      contribution s ''__classes'' @ styleSheet_children result"
    unfolding c by (simp add: contribution_def updateLayers_store)
  moreover have "set (classesGenerated (buildPendingClasses proc now1 s)) =
      set (classesGenerated s) \<union> set (success result)"
    unfolding c by (simp add: set_include_set)
  moreover have "classesPending (buildPendingClasses proc now1 s) = []"
    unfolding c by simp
  ultimately show "contribution s' ''__classes'' =
             contribution s ''__classes'' @ styleSheet_children result \<and>
           set (classesGenerated s') = set (classesGenerated s) \<union> set (success result) \<and>
           classesPending s' = []"
    unfolding s'_def buildPendingStyles_def
    by (simp add: buildPendingPreflights_classes_key buildPendingPreflights_fields)
qed

theorem C7_buildPendingStyles_success_witness:
  "classesPending (ex_state\<lparr>classesPending := [''m-1'', ''typo'']\<rparr>) \<noteq> [] \<and>
   success (proc_interpret ex_proc
     (join '' '' (classesPending (ex_state\<lparr>classesPending := [''m-1'', ''typo'']\<rparr>)))) = [''m-1''] \<and>
   contribution (buildPendingStyles ex_opts ex_proc 5 6
       (ex_state\<lparr>classesPending := [''m-1'', ''typo'']\<rparr>)) ''__classes'' =
     [\<lparr>meta_type = Utilities, payload = ''.p-4{}''\<rparr>, \<lparr>meta_type = Utilities, payload = ''.m-1{}''\<rparr>] \<and>
   set (classesGenerated (buildPendingStyles ex_opts ex_proc 5 6
       (ex_state\<lparr>classesPending := [''m-1'', ''typo'']\<rparr>))) = {''p-4'', ''m-1''} \<and>
   classesPending (buildPendingStyles ex_opts ex_proc 5 6
       (ex_state\<lparr>classesPending := [''m-1'', ''typo'']\<rparr>)) = []"
proof -
  have j: "join '' '' (classesPending (ex_state\<lparr>classesPending := [''m-1'', ''typo'']\<rparr>)) =
      ''m-1 typo''"
    by simp
  have r: "proc_interpret ex_proc ''m-1 typo'' =
      \<lparr>success = [''m-1''],
       styleSheet_children = [\<lparr>meta_type = Utilities, payload = ''.m-1{}''\<rparr>]\<rparr>"
    by (simp add: ex_proc_def)
  have c: "contribution (ex_state\<lparr>classesPending := [''m-1'', ''typo'']\<rparr>) ''__classes'' =
      [\<lparr>meta_type = Utilities, payload = ''.p-4{}''\<rparr>]"
    by (simp add: contribution_def ex_state_def)
  have g: "classesGenerated (ex_state\<lparr>classesPending := [''m-1'', ''typo'']\<rparr>) = [''p-4'']"
    by (simp add: ex_state_def)
  from C7_buildPendingStyles_success [of "ex_state\<lparr>classesPending := [''m-1'', ''typo'']\<rparr>"
      ex_proc ex_opts 5 6]
  show ?thesis unfolding j r c g by (simp add: insert_commute)
qed

text \<open>
  C10. For every state with pending classes for which \<^verbatim>\<open>interpret\<close> reports no
  compiled token, the class block of \<^verbatim>\<open>buildPendingStyles\<close> changes nothing at all, in
  particular no layer entry; and after the whole of \<^verbatim>\<open>buildPendingStyles\<close> the pending
  classes, the generated classes and the contribution of the key \<^verbatim>\<open>__classes\<close> are
  what they were.
\<close>

theorem C10_buildPendingStyles_failure:
  fixes opts :: ResolvedOptions and proc :: Processor and now1 now2 :: nat and s :: Utils
  defines "result \<equiv> proc_interpret proc (join '' '' (classesPending s))"
  defines "s' \<equiv> buildPendingStyles opts proc now1 now2 s"
  shows "classesPending s \<noteq> [] \<and> success result = [] \<longrightarrow>
           buildPendingClasses proc now1 s = s \<and>
           layers (buildPendingClasses proc now1 s) = layers s \<and>
           classesPending s' = classesPending s \<and>
           classesGenerated s' = classesGenerated s \<and>
           contribution s' ''__classes'' = contribution s ''__classes''"
proof
  assume "classesPending s \<noteq> [] \<and> success result = []"
  then have "buildPendingClasses proc now1 s = s"
    unfolding result_def by (simp add: buildPendingClasses_failure)
  then show "buildPendingClasses proc now1 s = s \<and>
           layers (buildPendingClasses proc now1 s) = layers s \<and>
           classesPending s' = classesPending s \<and>
           classesGenerated s' = classesGenerated s \<and>
           contribution s' ''__classes'' = contribution s ''__classes''"
    unfolding s'_def buildPendingStyles_def
    by (simp add: buildPendingPreflights_classes_key buildPendingPreflights_fields)
qed

theorem C10_buildPendingStyles_failure_witness:
  "classesPending ex_state \<noteq> [] \<and>
   success (proc_interpret ex_proc (join '' '' (classesPending ex_state))) = [] \<and>
   buildPendingClasses ex_proc 5 ex_state = ex_state \<and>
   classesPending (buildPendingStyles ex_opts ex_proc 5 6 ex_state) = [''m-1''] \<and>
   classesGenerated (buildPendingStyles ex_opts ex_proc 5 6 ex_state) = [''p-4''] \<and>
   contribution (buildPendingStyles ex_opts ex_proc 5 6 ex_state) ''__classes'' =
     [\<lparr>meta_type = Utilities, payload = ''.p-4{}''\<rparr>]"
proof -
  have p: "classesPending ex_state = [''m-1'']" and g: "classesGenerated ex_state = [''p-4'']"
    by (simp_all add: ex_state_def)
  have r: "success (proc_interpret ex_proc (join '' '' (classesPending ex_state))) = []"
    unfolding p by (simp add: ex_proc_def)
  have c: "contribution ex_state ''__classes'' = [\<lparr>meta_type = Utilities, payload = ''.p-4{}''\<rparr>]"
    by (simp add: contribution_def ex_state_def)
  from C10_buildPendingStyles_failure [of ex_state ex_proc 5 ex_opts 6] r
  show ?thesis unfolding c by (simp add: p g)
qed

subsection \<open>Cached texts agree with the stored styles\<close>

lemma coherent_iff:
  "coherent env opts s \<longleftrightarrow>
     (\<forall>name css. cssCache (get_layer (layers s) name) = Some css \<longrightarrow>
        css = layer_css env opts name (layerStylesMap s))"
proof
  assume c: "coherent env opts s"
  show "\<forall>name css. cssCache (get_layer (layers s) name) = Some css \<longrightarrow>
        css = layer_css env opts name (layerStylesMap s)"
  proof (intro allI impI)
    fix name css
    assume "cssCache (get_layer (layers s) name) = Some css"
    with c show "css = layer_css env opts name (layerStylesMap s)"
      by (cases name) (simp_all add: coherent_def)
  qed
next
  assume a: "\<forall>name css. cssCache (get_layer (layers s) name) = Some css \<longrightarrow>
        css = layer_css env opts name (layerStylesMap s)"
  from a [rule_format, of Base] a [rule_format, of Utilities] a [rule_format, of Components]
  show "coherent env opts s"
    by (simp add: coherent_def split: option.splits)
qed

lemma filter_other_layer:
  assumes "name \<notin> meta_type ` set xs"
  shows "filter (\<lambda>i. meta_type i = name) xs = []"
  using assms by (induction xs) auto

lemma layer_styles_map_set:
  assumes "filter (\<lambda>i. meta_type i = name) v =
           filter (\<lambda>i. meta_type i = name) (case map_get m k of None \<Rightarrow> [] | Some p \<Rightarrow> p)"
  shows "layer_styles name (map_set m k v) = layer_styles name m"
  using assms unfolding layer_styles_def map_values_def
  by (induction m k v rule: map_set.induct) auto

lemma updateLayers_layer_styles:
  assumes "name \<notin> set (changedLayers styles filepath replace s)"
  shows "layer_styles name (layerStylesMap (updateLayers now styles filepath replace s)) =
         layer_styles name (layerStylesMap s)"
proof -
  from assms have n: "filter (\<lambda>i. meta_type i = name) styles = []"
    by (simp add: set_changedLayers filter_other_layer)
  show ?thesis
  proof (cases replace)
    case True
    with assms have "filter (\<lambda>i. meta_type i = name) (contribution s filepath) = []"
      by (simp add: set_changedLayers filter_other_layer)
    with n True show ?thesis
      by (simp add: updateLayers_def Let_def contribution_def layer_styles_map_set)
  next
    case False
    with n show ?thesis
      by (simp add: updateLayers_def Let_def layer_styles_map_set split: option.splits)
  qed
qed

lemma layer_css_cong:
  assumes "layer_styles name m = layer_styles name m'"
  shows "layer_css env opts name m = layer_css env opts name m'"
  using assms by (simp add: layer_css_def)

lemma updateLayers_coherent:
  assumes "coherent env opts s"
  shows "coherent env opts (updateLayers now styles filepath replace s)"
  unfolding coherent_iff
proof (intro allI impI)
  fix name css
  assume c: "cssCache (get_layer (layers (updateLayers now styles filepath replace s)) name) =
      Some css"
  then have n: "name \<notin> set (changedLayers styles filepath replace s)"
    by (auto simp: updateLayers_layer)
  with c have "cssCache (get_layer (layers s) name) = Some css"
    by (simp add: updateLayers_layer)
  with assms have "css = layer_css env opts name (layerStylesMap s)"
    by (simp add: coherent_iff)
  with layer_css_cong [OF updateLayers_layer_styles [OF n]]
  show "css = layer_css env opts name
      (layerStylesMap (updateLayers now styles filepath replace s))"
    by simp
qed

lemma buildLayerCss_coherent:
  assumes "coherent env opts s"
  shows "coherent env opts (snd (buildLayerCss env opts name s))"
proof (cases "cssCache (get_layer (layers s) name)")
  case None
  show ?thesis
    unfolding coherent_iff
  proof (intro allI impI)
    fix n css
    assume "cssCache (get_layer (layers (snd (buildLayerCss env opts name s))) n) = Some css"
    with assms show "css = layer_css env opts n
        (layerStylesMap (snd (buildLayerCss env opts name s)))"
      by (auto simp: buildLayerCss_miss(2) [OF None] buildLayerCss_fields coherent_iff
          split: if_splits)
  qed
next
  case (Some css)
  with assms show ?thesis by (simp add: buildLayerCss_cached)
qed

lemma buildLayerCss_text:
  assumes "coherent env opts s"
  shows "fst (buildLayerCss env opts name s) = layer_css env opts name (layerStylesMap s)"
proof (cases "cssCache (get_layer (layers s) name)")
  case None
  then show ?thesis by (rule buildLayerCss_miss(1))
next
  case (Some css)
  with assms show ?thesis by (simp add: buildLayerCss_cached coherent_iff)
qed

lemma clearCache_coherent: "coherent env opts (clearCache env' opts' clearAll s)"
proof -
  have "cssCache (get_layer (layers (clearCache env' opts' clearAll s)) name) = None" for name
    by (cases name) (simp_all add: clearCache_fields empty_meta_def)
  then show ?thesis by (simp add: coherent_iff)
qed

lemma buildPendingClasses_coherent:
  assumes "coherent env opts s"
  shows "coherent env opts (buildPendingClasses proc now s)"
proof -
  have "coherent env opts
      ((updateLayers now styles ''__classes'' False s)\<lparr>classesGenerated := g, classesPending := []\<rparr>)"
    for styles g
    using updateLayers_coherent [OF assms, of now styles "''__classes''" False]
    by (simp add: coherent_iff)
  with assms show ?thesis
    by (simp add: buildPendingClasses_def Let_def)
qed

lemma buildPendingPreflights_coherent:
  assumes "coherent env opts s"
  shows "coherent env opts (buildPendingPreflights opts' proc now s)"
proof -
  have "coherent env opts
      ((updateLayers now styles ''__preflights'' False s)\<lparr>tagsGenerated := g, tagsPending := []\<rparr>)"
    for styles g
    using updateLayers_coherent [OF assms, of now styles "''__preflights''" False]
    by (simp add: coherent_iff)
  with assms show ?thesis
    by (simp add: buildPendingPreflights_def Let_def)
qed

lemma buildPendingStyles_coherent:
  assumes "coherent env opts s"
  shows "coherent env opts (buildPendingStyles opts' proc now1 now2 s)"
  unfolding buildPendingStyles_def
  by (intro buildPendingPreflights_coherent buildPendingClasses_coherent assms)

lemma generateCSS_coherent:
  assumes "coherent env opts s"
  shows "coherent env opts (snd (generateCSS env opts proc now1 now2 layer s))"
proof (cases layer)
  case None
  then show ?thesis
    by (simp add: generateCSS_def Let_def)
      (intro buildLayerCss_coherent buildPendingStyles_coherent assms)
next
  case (Some l)
  then show ?thesis
    by (simp add: generateCSS_def Let_def)
      (intro buildLayerCss_coherent buildPendingStyles_coherent assms)
qed

lemma call_coherent:
  assumes "coherent env opts s"
  shows "coherent env opts (call env opts s c)"
proof (cases c)
  case (AddClasses classes)
  with assms show ?thesis by (simp add: coherent_iff addClasses_fields)
next
  case (AddTags tags)
  with assms show ?thesis by (simp add: coherent_iff addTags_fields)
next
  case (ClearCache clearAll)
  then show ?thesis by (simp add: clearCache_coherent)
next
  case (UpdateLayers now styles filepath replace)
  with assms show ?thesis by (simp add: updateLayers_coherent)
next
  case (BuildLayerCss name)
  with assms show ?thesis by (simp add: buildLayerCss_coherent)
next
  case (BuildPendingStyles proc now1 now2)
  with assms show ?thesis by (simp add: buildPendingStyles_coherent)
next
  case (GenerateCSS proc now1 now2 layer)
  with assms show ?thesis by (simp add: generateCSS_coherent)
qed

lemma run_calls_coherent:
  assumes "coherent env opts s"
  shows "coherent env opts (run_calls env opts cs s)"
  using assms unfolding run_calls_def
  by (induction cs arbitrary: s) (simp_all add: call_coherent)

lemma initial_coherent: "coherent env opts initial"
proof -
  have "cssCache (get_layer (layers initial) name) = None" for name
    by (cases name) (simp_all add: initial_def empty_meta_def)
  then show ?thesis by (simp add: coherent_iff)
qed

text \<open>
  C8. Let \<open>text m\<close> be the banner of a layer followed by what the style sheet builder
  makes of the styles of the store \<open>m\<close> that carry the tag of the layer, in the order
  of the store (sorted first when the options say so). In every state that a sequence of
  calls reaches from the initial state, \<^verbatim>\<open>buildLayerCss\<close> returns this text of the
  current store, and \<^verbatim>\<open>generateCSS\<close> for one layer returns this text of the store that
  \<^verbatim>\<open>buildPendingStyles\<close> leaves; so does \<^verbatim>\<open>buildLayerCss\<close> in any state in which the
  layer has no cached text. No style with another tag enters the text. When the store
  has no style with the tag of the layer, and the builder makes the empty text of no
  styles, the result is the banner alone.
\<close>

theorem C8_layer_text:
  fixes env :: Env and opts :: ResolvedOptions and name :: LayerName and cs :: "Call list"
    and proc :: Processor and now1 now2 :: nat and s0 :: Utils
  defines "s \<equiv> run_calls env opts cs initial"
  defines "prefixer \<equiv> (case config_prefixer opts of None \<Rightarrow> True | Some b \<Rightarrow> b)"
  defines "tagged \<equiv> \<lambda>m. filter (\<lambda>i. meta_type i = name) (concat (map snd m))"
  defines "text \<equiv> \<lambda>m. banner name @
     sheet_build env prefixer (if sortUtilities opts then sheet_sort env (tagged m) else tagged m)"
  shows "fst (buildLayerCss env opts name s) = text (layerStylesMap s) \<and>
         fst (generateCSS env opts proc now1 now2 (Some name) s) =
           text (layerStylesMap (buildPendingStyles opts proc now1 now2 s)) \<and>
         (cssCache (get_layer (layers s0) name) = None \<longrightarrow>
            fst (buildLayerCss env opts name s0) = text (layerStylesMap s0)) \<and>
         (tagged (layerStylesMap s) = [] \<and> sheet_sort env [] = [] \<and>
          sheet_build env prefixer [] = [] \<longrightarrow>
            fst (buildLayerCss env opts name s) = banner name)"
proof -
  have t: "layer_css env opts name m = text m" for m
    unfolding text_def tagged_def prefixer_def
    by (simp add: layer_css_def layer_styles_def map_values_def Let_def)
  have c: "coherent env opts s"
    unfolding s_def by (rule run_calls_coherent) (rule initial_coherent)
  have 1: "fst (buildLayerCss env opts name s) = text (layerStylesMap s)"
    using buildLayerCss_text [OF c] by (simp add: t)
  have 2: "fst (generateCSS env opts proc now1 now2 (Some name) s) =
           text (layerStylesMap (buildPendingStyles opts proc now1 now2 s))"
    using buildLayerCss_text [OF buildPendingStyles_coherent [OF c]]
    by (simp add: generateCSS_def t)
  have 3: "cssCache (get_layer (layers s0) name) = None \<longrightarrow>
            fst (buildLayerCss env opts name s0) = text (layerStylesMap s0)"
    using buildLayerCss_miss(1) by (simp add: t)
  have 4: "tagged (layerStylesMap s) = [] \<and> sheet_sort env [] = [] \<and>
          sheet_build env prefixer [] = [] \<longrightarrow>
            fst (buildLayerCss env opts name s) = banner name"
    unfolding 1 by (simp add: text_def)
  from 1 2 3 4 show ?thesis by blast
qed

theorem C8_layer_text_witness:
  "cssCache (get_layer (layers ex_state) Components) = None \<and>
   filter (\<lambda>i. meta_type i = Components)
     (concat (map snd (layerStylesMap (run_calls ex_env ex_opts ex_later initial)))) = [] \<and>
   sheet_sort ex_env [] = [] \<and>
   sheet_build ex_env (case config_prefixer ex_opts of None \<Rightarrow> True | Some b \<Rightarrow> b) [] = [] \<and>
   fst (buildLayerCss ex_env ex_opts Components (run_calls ex_env ex_opts ex_later initial)) =
     banner Components \<and>
   fst (buildLayerCss ex_env ex_opts Components ex_state) = banner Components @ ''.btn{}''"
proof -
  have m: "layerStylesMap (run_calls ex_env ex_opts ex_later initial) =
      [(''/src/b.css'', [\<lparr>meta_type = Base, payload = ''h2{}''\<rparr>])]"
    by (simp add: run_calls_def ex_later_def buildLayerCss_fields updateLayers_def Let_def
        initial_def)
  have h3: "cssCache (get_layer (layers ex_state) Components) = None"
    by (simp add: ex_state_def)
  have h4: "filter (\<lambda>i. meta_type i = Components)
     (concat (map snd (layerStylesMap (run_calls ex_env ex_opts ex_later initial)))) = []"
    unfolding m by simp
  have h5: "sheet_sort ex_env [] = []"
    "sheet_build ex_env (case config_prefixer ex_opts of None \<Rightarrow> True | Some b \<Rightarrow> b) [] = []"
    by (simp_all add: ex_env_def)
  have e: "layerStylesMap ex_state =
       [(''__classes'', [\<lparr>meta_type = Utilities, payload = ''.p-4{}''\<rparr>]),
        (''/src/main.css'', [\<lparr>meta_type = Base, payload = ''h1{}''\<rparr>,
                             \<lparr>meta_type = Components, payload = ''.btn{}''\<rparr>])]"
    "sortUtilities ex_opts = False"
    "sheet_build ex_env b [\<lparr>meta_type = Components, payload = ''.btn{}''\<rparr>] = ''.btn{}''" for b
    by (simp_all add: ex_state_def ex_opts_def ex_env_def)
  from C8_layer_text [of ex_env ex_opts Components ex_later ex_proc 5 6 ex_state] h3 h4 h5
  have "fst (buildLayerCss ex_env ex_opts Components (run_calls ex_env ex_opts ex_later initial)) =
     banner Components"
    and "fst (buildLayerCss ex_env ex_opts Components ex_state) = banner Components @ ''.btn{}''"
    by (simp_all add: e)
  with h3 h4 h5 show ?thesis by blast
qed

subsection \<open>The initialization coordinator\<close>
















end
